theory Spec2Isabelle
  imports Complex_Main
begin

section \<open>JavaScript numbers\<close>

text \<open>
  Every number of \<^verbatim>\<open>src/App.tsx\<close> is a JavaScript Number, an IEEE 754 binary64
  value, and every \<^verbatim>\<open>+\<close>, \<^verbatim>\<open>-\<close>, \<^verbatim>\<open>*\<close>, \<^verbatim>\<open>/\<close> rounds its exact result to the
  nearest such value, ties to the even significand. A finite Number is modelled by the real
  it denotes; \<open>roundDouble\<close> is the rounding (53 significant bits, the exponent of the
  last bit not below \<open>-1074\<close>, so subnormal results are covered). Overflow to an
  infinity and NaN are outside the model: the form handlers of the component replace a
  NaN input by \<open>0\<close> before it reaches the settings.
\<close>

fun bitLength :: "nat \<Rightarrow> nat" where
  "bitLength n = (if n = 0 then 0 else Suc (bitLength (n div 2)))"

declare bitLength.simps [simp del]

text \<open>\<open>floorLog2 q\<close> is the integer \<open>k\<close> with \<open>2^k \<le> q < 2^(k+1)\<close>, for \<open>q > 0\<close>.\<close>

definition floorLog2 :: "real \<Rightarrow> int" where
  "floorLog2 q = (if 1 \<le> q then int (bitLength (nat \<lfloor>q\<rfloor>)) - 1
                  else - int (bitLength (nat (\<lceil>1 / q\<rceil> - 1))))"

definition roundHalfEven :: "real \<Rightarrow> int" where
  "roundHalfEven q = (let f = \<lfloor>q\<rfloor>; d = q - of_int f in
     if d < 1 / 2 then f else if 1 / 2 < d then f + 1 else if even f then f else f + 1)"

definition scale2 :: "real \<Rightarrow> int \<Rightarrow> real" where
  "scale2 q e = (if 0 \<le> e then q * 2 ^ nat e else q / 2 ^ nat (- e))"

definition roundDouble :: "real \<Rightarrow> real" where
  "roundDouble q = (if q = 0 then 0 else
     let e = max (floorLog2 \<bar>q\<bar> - 52) (- 1074) in
     sgn q * scale2 (of_int (roundHalfEven (scale2 \<bar>q\<bar> (- e)))) e)"

definition numAdd :: "real \<Rightarrow> real \<Rightarrow> real" where
  "numAdd a b = roundDouble (a + b)"

definition numSub :: "real \<Rightarrow> real \<Rightarrow> real" where
  "numSub a b = roundDouble (a - b)"

definition numMul :: "real \<Rightarrow> real \<Rightarrow> real" where
  "numMul a b = roundDouble (a * b)"

text \<open>The only divisor in the source is the literal \<open>2\<close>.\<close>

definition numDiv :: "real \<Rightarrow> real \<Rightarrow> real" where
  "numDiv a b = roundDouble (a / b)"

section \<open>The settings\<close>

text \<open>\<^verbatim>\<open>interface GridSettings\<close>, lines 4 to 16.\<close>

datatype PageUnit = Mm | Cm | In

datatype GridType = Lines | Dots

record GridSettings =
  pageWidth :: real
  pageHeight :: real
  pageUnit :: PageUnit
  gridType :: GridType
  gridSpacingX :: real
  gridSpacingY :: real
  lineWidth :: real
  dotSize :: real
  rectangleWidth :: real
  rectangleHeight :: real
  rectangleBorderWidth :: real

section \<open>The markup\<close>

text \<open>
  The function returns a string built from template literals. A template literal is kept
  as the sequence of its parts: \<open>Text\<close> for literal text and \<open>Number\<close> for an
  interpolated Number, printed only by \<open>render\<close> with the Number-to-string conversion
  \<open>num\<close> of the language. Literal text is cut at interpolations and at line ends.
\<close>

datatype piece = Text string | Number real

fun renderPiece :: "(real \<Rightarrow> string) \<Rightarrow> piece \<Rightarrow> string" where
  "renderPiece num (Text t) = t"
| "renderPiece num (Number r) = num r"

definition render :: "(real \<Rightarrow> string) \<Rightarrow> piece list \<Rightarrow> string" where
  "render num ps = concat (map (renderPiece num) ps)"

section \<open>\<^verbatim>\<open>generateSVG\<close>, lines 35 to 117\<close>

text \<open>Each \<^verbatim>\<open>const\<close> of the function body is a definition over the settings.\<close>

definition pageWidthMm :: "GridSettings \<Rightarrow> real" where
  "pageWidthMm settings =
     (if pageUnit settings = Cm then numMul (pageWidth settings) 10
      else if pageUnit settings = In then numMul (pageWidth settings) (roundDouble (254 / 10))
      else pageWidth settings)"

definition pageHeightMm :: "GridSettings \<Rightarrow> real" where
  "pageHeightMm settings =
     (if pageUnit settings = Cm then numMul (pageHeight settings) 10
      else if pageUnit settings = In then numMul (pageHeight settings) (roundDouble (254 / 10))
      else pageHeight settings)"

definition rectangleX :: "GridSettings \<Rightarrow> real" where
  "rectangleX settings = numDiv (numSub (pageWidthMm settings) (rectangleWidth settings)) 2"

definition rectangleY :: "GridSettings \<Rightarrow> real" where
  "rectangleY settings = numDiv (numSub (pageHeightMm settings) (rectangleHeight settings)) 2"

definition mmToPixel :: real where
  "mmToPixel = roundDouble (3779527559 / 1000000000)"

definition svgWidth :: "GridSettings \<Rightarrow> real" where
  "svgWidth settings = numMul (pageWidthMm settings) mmToPixel"

definition svgHeight :: "GridSettings \<Rightarrow> real" where
  "svgHeight settings = numMul (pageHeightMm settings) mmToPixel"

definition rectW :: "GridSettings \<Rightarrow> real" where
  "rectW settings = numMul (rectangleWidth settings) mmToPixel"

definition rectH :: "GridSettings \<Rightarrow> real" where
  "rectH settings = numMul (rectangleHeight settings) mmToPixel"

definition rectX :: "GridSettings \<Rightarrow> real" where
  "rectX settings = numMul (rectangleX settings) mmToPixel"

definition rectY :: "GridSettings \<Rightarrow> real" where
  "rectY settings = numMul (rectangleY settings) mmToPixel"

definition spacingX :: "GridSettings \<Rightarrow> real" where
  "spacingX settings = numMul (gridSpacingX settings) mmToPixel"

definition spacingY :: "GridSettings \<Rightarrow> real" where
  "spacingY settings = numMul (gridSpacingY settings) mmToPixel"

definition gridStartX :: "GridSettings \<Rightarrow> real" where
  "gridStartX settings = rectX settings"

definition gridEndX :: "GridSettings \<Rightarrow> real" where
  "gridEndX settings = numAdd (rectX settings) (rectW settings)"

definition gridStartY :: "GridSettings \<Rightarrow> real" where
  "gridStartY settings = rectY settings"

definition gridEndY :: "GridSettings \<Rightarrow> real" where
  "gridEndY settings = numAdd (rectY settings) (rectH settings)"

definition alignedStartX :: "GridSettings \<Rightarrow> real" where
  "alignedStartX settings = rectX settings"

definition alignedStartY :: "GridSettings \<Rightarrow> real" where
  "alignedStartY settings = rectY settings"

text \<open>
  The template literal of lines 87 and 94, the same text in both loops:
  \<^verbatim>\<open><line x1="${..}" y1="${..}" x2="${..}" y2="${..}" stroke="#666" stroke-width="${..}" />\n\<close>.
\<close>

definition lineElement :: "real \<Rightarrow> real \<Rightarrow> real \<Rightarrow> real \<Rightarrow> real \<Rightarrow> piece list" where
  \<open>lineElement x1 y1 x2 y2 strokeWidth =
     [Text ''<line x1="'', Number x1, Text ''" y1="'', Number y1,
      Text ''" x2="'', Number x2, Text ''" y2="'', Number y2,
      Text ''" stroke="#666" stroke-width="'', Number strokeWidth, Text ''" />\<newline>'']\<close>

text \<open>
  The loop of lines 85 to 89, with its variables \<open>x\<close> and \<open>gridLines\<close>. The loop has
  no bound of its own, so a run that never leaves it is the value \<open>None\<close>.
\<close>

partial_function (option) verticalLines ::
  "GridSettings \<Rightarrow> real \<Rightarrow> piece list \<Rightarrow> piece list option" where
  "verticalLines settings x gridLines =
     (if x \<le> gridEndX settings
      then verticalLines settings (numAdd x (spacingX settings))
             (if rectX settings \<le> x \<and> x \<le> numAdd (rectX settings) (rectW settings)
              then gridLines @ lineElement x (gridStartY settings) x (gridEndY settings)
                                 (numMul (lineWidth settings) mmToPixel)
              else gridLines)
      else Some gridLines)"

text \<open>The loop of lines 92 to 96.\<close>

partial_function (option) horizontalLines ::
  "GridSettings \<Rightarrow> real \<Rightarrow> piece list \<Rightarrow> piece list option" where
  "horizontalLines settings y gridLines =
     (if y \<le> gridEndY settings
      then horizontalLines settings (numAdd y (spacingY settings))
             (if rectY settings \<le> y \<and> y \<le> numAdd (rectY settings) (rectH settings)
              then gridLines @ lineElement (gridStartX settings) y (gridEndX settings) y
                                 (numMul (lineWidth settings) mmToPixel)
              else gridLines)
      else Some gridLines)"

text \<open>The returned template literal, lines 98 to 116, around the finished \<open>gridLines\<close>.\<close>

definition svgDocument :: "GridSettings \<Rightarrow> piece list \<Rightarrow> piece list" where
  \<open>svgDocument settings gridLines =
     [Text ''<?xml version="1.0" encoding="UTF-8"?>\<newline>'',
      Text ''<svg width="'', Number (pageWidthMm settings),
      Text ''mm" height="'', Number (pageHeightMm settings),
      Text ''mm" viewBox="0 0 '', Number (svgWidth settings),
      Text '' '', Number (svgHeight settings),
      Text ''" xmlns="http://www.w3.org/2000/svg">\<newline>'',
      Text ''  <defs>\<newline>'',
      Text ''    <style>\<newline>'',
      Text ''      .page-boundary { fill: none; stroke: #000; stroke-width: 1; }\<newline>'',
      Text ''      .rectangle { fill: none; stroke: #000; stroke-width: '',
      Number (numMul (rectangleBorderWidth settings) mmToPixel), Text ''; }\<newline>'',
      Text ''      .grid-line { stroke: #666; stroke-width: '',
      Number (numMul (lineWidth settings) mmToPixel), Text ''; }\<newline>'',
      Text ''    </style>\<newline>'',
      Text ''  </defs>\<newline>'',
      Text ''  \<newline>'',
      Text ''  <!-- Page boundary -->\<newline>'',
      Text ''  <rect class="page-boundary" x="0" y="0" width="'', Number (svgWidth settings),
      Text ''" height="'', Number (svgHeight settings), Text ''" />\<newline>'',
      Text ''  \<newline>'',
      Text ''  <!-- Grid lines -->\<newline>'',
      Text ''  '']
     @ gridLines @
     [Text ''\<newline>'',
      Text ''  \<newline>'',
      Text ''  <!-- Rectangle -->\<newline>'',
      Text ''  <rect class="rectangle" x="'', Number (rectX settings),
      Text ''" y="'', Number (rectY settings),
      Text ''" width="'', Number (rectW settings),
      Text ''" height="'', Number (rectH settings), Text ''" />\<newline>'',
      Text ''</svg>'']\<close>

definition generateSVG :: "GridSettings \<Rightarrow> piece list option" where
  "generateSVG settings =
     (case verticalLines settings (alignedStartX settings) [] of
        None \<Rightarrow> None
      | Some vertical \<Rightarrow>
          (case horizontalLines settings (alignedStartY settings) vertical of
             None \<Rightarrow> None
           | Some gridLines \<Rightarrow> Some (svgDocument settings gridLines)))"

text \<open>
  The initial state of the component, lines 19 to 29: an A4 page in millimetres, a
  rectangle of 100 by 80, a spacing of 10 by 10. The literals \<^verbatim>\<open>0.2\<close> and \<^verbatim>\<open>0.4\<close> are
  the doubles nearest to them. The source leaves \<open>gridType\<close> and \<open>dotSize\<close> unset there;
  \<open>generateSVG\<close> reads neither.
\<close>

definition initialSettings :: GridSettings where
  "initialSettings =
     \<lparr>pageWidth = 210, pageHeight = 297, pageUnit = Mm, gridType = Lines,
      gridSpacingX = 10, gridSpacingY = 10, lineWidth = roundDouble (2 / 10), dotSize = 1,
      rectangleWidth = 100, rectangleHeight = 80,
      rectangleBorderWidth = roundDouble (4 / 10)\<rparr>"


section \<open>Properties of the rounding\<close>

text \<open>
  \<open>roundDouble\<close> is monotone and leaves a double as it is; both are needed to follow
  a loop variable through additions whose results are not known.
\<close>

lemma scale2_powr: "scale2 q e = q * 2 powr (real_of_int e)"
proof (cases "0 \<le> e")
  case True
  then have "(2::real) powr (real_of_int e) = 2 ^ nat e"
    using powr_realpow [of "2::real" "nat e"] by simp
  with True show ?thesis by (simp add: scale2_def)
next
  case False
  then have "(2::real) powr (real_of_int (- e)) = 2 ^ nat (- e)"
    using powr_realpow [of "2::real" "nat (- e)"] by simp
  then have "(2::real) powr (real_of_int e) = 1 / 2 ^ nat (- e)"
    using powr_minus_divide [of "2::real" "real_of_int (- e)"] by simp
  with False show ?thesis by (simp add: scale2_def)
qed

lemma bitLength_pos: "0 < n \<Longrightarrow> bitLength n = Suc (bitLength (n div 2))"
  by (subst bitLength.simps) simp

lemma bitLength_bounds:
  "0 < n \<Longrightarrow> 2 ^ (bitLength n - 1) \<le> n \<and> n < 2 ^ bitLength n"
proof (induction n rule: bitLength.induct)
  case (1 n)
  show ?case
  proof (cases "n div 2 = 0")
    case True
    with 1(2) have "n = 1" by presburger
    then show ?thesis by (simp add: bitLength.simps [of "Suc 0"] bitLength.simps [of 0])
  next
    case False
    then have pos: "0 < n div 2" by simp
    from 1(2) have "n \<noteq> 0" by simp
    from 1(1) [OF this pos]
    have ih1: "2 ^ (bitLength (n div 2) - 1) \<le> n div 2"
      and ih2: "n div 2 < 2 ^ bitLength (n div 2)" by simp_all
    have bl: "bitLength n = Suc (bitLength (n div 2))" using 1(2) by (rule bitLength_pos)
    obtain k where k: "bitLength (n div 2) = Suc k"
      using bitLength_pos [OF pos] by simp
    from ih1 k have "2 * 2 ^ k \<le> 2 * (n div 2)" by simp
    also have "\<dots> \<le> n" by presburger
    finally have lo: "2 ^ (bitLength n - 1) \<le> n" by (simp add: bl k)
    from ih2 have "Suc (n div 2) \<le> 2 ^ bitLength (n div 2)" by simp
    then have "2 * Suc (n div 2) \<le> 2 * 2 ^ bitLength (n div 2)" by simp
    moreover have "n < 2 * Suc (n div 2)" by presburger
    ultimately have "n < 2 ^ bitLength n" by (simp add: bl)
    with lo show ?thesis ..
  qed
qed


lemma two_powr_nat: "(2::real) powr (real n) = 2 ^ n"
  using powr_realpow [of "2::real" n] by simp

lemma floorLog2_bounds:
  assumes "0 < q"
  shows "2 powr (real_of_int (floorLog2 q)) \<le> q"
    and "q < 2 powr (real_of_int (floorLog2 q + 1))"
proof -
  show "2 powr (real_of_int (floorLog2 q)) \<le> q"
  proof (cases "1 \<le> q")
    case True
    define n where "n = nat \<lfloor>q\<rfloor>"
    from True have n: "0 < n" by (simp add: n_def)
    from True have "real n \<le> q" by (simp add: n_def)
    moreover from bitLength_bounds [OF n] have "(2::nat) ^ (bitLength n - 1) \<le> n" ..
    then have "real (2 ^ (bitLength n - 1)) \<le> real n" by (rule of_nat_mono)
    ultimately have "real (2 ^ (bitLength n - 1)) \<le> q" by (rule order_trans [rotated])
    then have "2 ^ (bitLength n - 1) \<le> q" by simp
    moreover have "0 < bitLength n" using bitLength_pos [OF n] by simp
    then have "floorLog2 q = int (bitLength n - 1)"
      using True by (simp add: floorLog2_def n_def)
    ultimately show ?thesis by (simp add: two_powr_nat)
  next
    case False
    define c where "c = \<lceil>1 / q\<rceil>"
    define m where "m = nat (c - 1)"
    define k where "k = bitLength m"
    from False assms have r: "1 < 1 / q" by simp
    then have c: "1 < c" unfolding c_def by linarith
    then have m: "0 < m" by (simp add: m_def)
    have "1 / q \<le> real_of_int c" unfolding c_def by (rule le_of_int_ceiling)
    also have "\<dots> = real m + 1" using c by (simp add: m_def)
    also from bitLength_bounds [OF m] have "Suc m \<le> 2 ^ k" by (simp add: k_def)
    then have "real (Suc m) \<le> real (2 ^ k)" by (rule of_nat_mono)
    then have "real m + 1 \<le> 2 ^ k" by simp
    finally have "1 / q \<le> 2 ^ k" by simp
    with assms have "1 / 2 ^ k \<le> q" by (simp add: field_simps)
    moreover have "floorLog2 q = - int k"
      using False by (simp add: floorLog2_def k_def m_def c_def)
    moreover have "(2::real) powr (- real k) = 1 / 2 ^ k"
      by (simp add: powr_minus_divide two_powr_nat)
    ultimately show ?thesis by simp
  qed
  show "q < 2 powr (real_of_int (floorLog2 q + 1))"
  proof (cases "1 \<le> q")
    case True
    define n where "n = nat \<lfloor>q\<rfloor>"
    from True have n: "0 < n" by (simp add: n_def)
    have "q < real_of_int \<lfloor>q\<rfloor> + 1" by linarith
    also have "\<dots> = real (Suc n)" using True by (simp add: n_def)
    also from bitLength_bounds [OF n] have "Suc n \<le> 2 ^ bitLength n" by simp
    then have "real (Suc n) \<le> real (2 ^ bitLength n)" by (rule of_nat_mono)
    finally have "q < 2 ^ bitLength n" by simp
    moreover have "floorLog2 q + 1 = int (bitLength n)"
      using True by (simp add: floorLog2_def n_def)
    ultimately show ?thesis by (simp add: two_powr_nat)
  next
    case False
    define c where "c = \<lceil>1 / q\<rceil>"
    define m where "m = nat (c - 1)"
    define k where "k = bitLength m"
    from False assms have r: "1 < 1 / q" by simp
    then have c: "1 < c" unfolding c_def by linarith
    then have m: "0 < m" by (simp add: m_def)
    obtain j where j: "k = Suc j" using bitLength_pos [OF m] by (simp add: k_def)
    from bitLength_bounds [OF m] j have "(2::nat) ^ j \<le> m" by (simp add: k_def)
    then have "real (2 ^ j) \<le> real m" by (rule of_nat_mono)
    also have "real m = real_of_int c - 1" using c by (simp add: m_def)
    also have "\<dots> < 1 / q" unfolding c_def by linarith
    finally have "2 ^ j < 1 / q" by simp
    with assms have "q < 1 / 2 ^ j" by (simp add: field_simps)
    moreover have "floorLog2 q + 1 = - int j"
      using False j by (simp add: floorLog2_def k_def m_def c_def)
    moreover have "(2::real) powr (- real j) = 1 / 2 ^ j"
      by (simp add: powr_minus_divide two_powr_nat)
    ultimately show ?thesis by simp
  qed
qed

lemma floorLog2_unique:
  assumes "0 < q" "2 powr (real_of_int k) \<le> q" "q < 2 powr (real_of_int (k + 1))"
  shows "floorLog2 q = k"
proof -
  from floorLog2_bounds(1) [OF assms(1)] assms(3)
  have "2 powr (real_of_int (floorLog2 q)) < 2 powr (real_of_int (k + 1))" by (rule le_less_trans)
  then have "floorLog2 q < k + 1" by simp
  moreover from assms(2) floorLog2_bounds(2) [OF assms(1)]
  have "2 powr (real_of_int k) < 2 powr (real_of_int (floorLog2 q + 1))" by (rule le_less_trans)
  then have "k < floorLog2 q + 1" by simp
  ultimately show ?thesis by simp
qed

lemma floorLog2_mono:
  assumes "0 < a" "a \<le> b"
  shows "floorLog2 a \<le> floorLog2 b"
proof -
  from assms have b: "0 < b" by simp
  from floorLog2_bounds(1) [OF assms(1)] assms(2) have "2 powr (real_of_int (floorLog2 a)) \<le> b"
    by (rule order_trans)
  from this floorLog2_bounds(2) [OF b]
  have "2 powr (real_of_int (floorLog2 a)) < 2 powr (real_of_int (floorLog2 b + 1))"
    by (rule le_less_trans)
  then have "floorLog2 a < floorLog2 b + 1" by simp
  then show ?thesis by simp
qed

lemma two_powr_int: "0 \<le> k \<Longrightarrow> (2::real) powr (real_of_int k) = real_of_int (2 ^ nat k)"
  using two_powr_nat [of "nat k"] by simp

lemma two_powr_add:
  "(2::real) powr (real_of_int a) * 2 powr (real_of_int b) = 2 powr (real_of_int (a + b))"
  by (simp add: powr_add)

lemma roundHalfEven_bounds: "\<lfloor>q\<rfloor> \<le> roundHalfEven q" "roundHalfEven q \<le> \<lfloor>q\<rfloor> + 1"
  by (simp_all add: roundHalfEven_def Let_def)

lemma roundHalfEven_of_int: "roundHalfEven (real_of_int n) = n"
  by (simp add: roundHalfEven_def Let_def)

lemma roundHalfEven_mono:
  assumes "a \<le> b"
  shows "roundHalfEven a \<le> roundHalfEven b"
proof (cases "\<lfloor>a\<rfloor> < \<lfloor>b\<rfloor>")
  case True
  have "roundHalfEven a \<le> \<lfloor>a\<rfloor> + 1" by (rule roundHalfEven_bounds)
  also from True have "\<dots> \<le> \<lfloor>b\<rfloor>" by simp
  also have "\<dots> \<le> roundHalfEven b" by (rule roundHalfEven_bounds)
  finally show ?thesis .
next
  case False
  moreover from assms have "\<lfloor>a\<rfloor> \<le> \<lfloor>b\<rfloor>" by (rule floor_mono)
  ultimately have "\<lfloor>a\<rfloor> = \<lfloor>b\<rfloor>" by simp
  with assms show ?thesis by (simp add: roundHalfEven_def Let_def)
qed

lemma roundHalfEven_le: "q \<le> real_of_int n \<Longrightarrow> roundHalfEven q \<le> n"
  using roundHalfEven_mono [of q "real_of_int n"] by (simp add: roundHalfEven_of_int)

lemma roundHalfEven_ge: "real_of_int n \<le> q \<Longrightarrow> n \<le> roundHalfEven q"
  using roundHalfEven_mono [of "real_of_int n" q] by (simp add: roundHalfEven_of_int)

text \<open>The exponent of the last bit of the double nearest to a positive number.\<close>

lemma roundDouble_pos:
  assumes "0 < q"
  shows "roundDouble q =
    real_of_int (roundHalfEven (q * 2 powr (real_of_int (- max (floorLog2 q - 52) (- 1074)))))
      * 2 powr (real_of_int (max (floorLog2 q - 52) (- 1074)))"
  using assms by (simp add: roundDouble_def Let_def scale2_powr)

lemma roundDouble_minus: "roundDouble (- q) = - roundDouble q"
  by (simp add: roundDouble_def Let_def sgn_minus)

lemma roundDouble_nonneg:
  assumes "0 \<le> q"
  shows "0 \<le> roundDouble q"
proof (cases "q = 0")
  case True
  then show ?thesis by (simp add: roundDouble_def)
next
  case False
  with assms have q: "0 < q" by simp
  let ?e = "max (floorLog2 q - 52) (- 1074)"
  from q have "real_of_int 0 \<le> q * 2 powr (real_of_int (- ?e))" by simp
  then have "0 \<le> roundHalfEven (q * 2 powr (real_of_int (- ?e)))" by (rule roundHalfEven_ge)
  then show ?thesis unfolding roundDouble_pos [OF q] by simp
qed

lemma roundDouble_nonpos: "q \<le> 0 \<Longrightarrow> roundDouble q \<le> 0"
  using roundDouble_nonneg [of "- q"] by (simp add: roundDouble_minus)

lemma roundDouble_mono_pos:
  assumes a: "0 < a" and ab: "a \<le> b"
  shows "roundDouble a \<le> roundDouble b"
proof -
  from a ab have b: "0 < b" by simp
  define ea where "ea = max (floorLog2 a - 52) (- 1074)"
  define eb where "eb = max (floorLog2 b - 52) (- 1074)"
  have ra: "roundDouble a
      = real_of_int (roundHalfEven (a * 2 powr (real_of_int (- ea)))) * 2 powr (real_of_int ea)"
    unfolding ea_def by (rule roundDouble_pos [OF a])
  have rb: "roundDouble b
      = real_of_int (roundHalfEven (b * 2 powr (real_of_int (- eb)))) * 2 powr (real_of_int eb)"
    unfolding eb_def by (rule roundDouble_pos [OF b])
  from floorLog2_mono [OF a ab] have le: "ea \<le> eb" by (simp add: ea_def eb_def)
  show ?thesis
  proof (cases "ea = eb")
    case True
    from ab have "a * 2 powr (real_of_int (- eb)) \<le> b * 2 powr (real_of_int (- eb))"
      by (simp add: mult_right_mono)
    then have "roundHalfEven (a * 2 powr (real_of_int (- eb)))
        \<le> roundHalfEven (b * 2 powr (real_of_int (- eb)))" by (rule roundHalfEven_mono)
    then show ?thesis unfolding ra rb True by (simp add: mult_right_mono)
  next
    case False
    with le have lt: "ea < eb" by simp
    then have eb: "eb = floorLog2 b - 52" and fl: "floorLog2 a + 1 \<le> floorLog2 b"
      unfolding ea_def eb_def by linarith+
    from lt eb have d: "0 \<le> floorLog2 b - ea" by linarith
    define N where "N = (2::int) ^ nat (floorLog2 b - ea)"
    have N: "real_of_int N = 2 powr (real_of_int (floorLog2 b - ea))"
      unfolding N_def using two_powr_int [OF d] by simp
    have "a < 2 powr (real_of_int (floorLog2 a + 1))" by (rule floorLog2_bounds [OF a])
    also from fl have "\<dots> \<le> 2 powr (real_of_int (floorLog2 b))" by simp
    finally have "a * 2 powr (real_of_int (- ea))
        \<le> 2 powr (real_of_int (floorLog2 b)) * 2 powr (real_of_int (- ea))"
      by (simp add: mult_right_mono)
    also have "\<dots> = real_of_int N" unfolding N two_powr_add by simp
    finally have "roundHalfEven (a * 2 powr (real_of_int (- ea))) \<le> N"
      by (rule roundHalfEven_le)
    then have "roundDouble a \<le> real_of_int N * 2 powr (real_of_int ea)"
      unfolding ra by (simp add: mult_right_mono)
    also have "\<dots> = 2 powr (real_of_int (floorLog2 b))" unfolding N two_powr_add by simp
    finally have upper: "roundDouble a \<le> 2 powr (real_of_int (floorLog2 b))" .
    have "real_of_int (2 ^ nat 52) = 2 powr (real_of_int 52)"
      using two_powr_int [of 52] by simp
    also have "\<dots> = 2 powr (real_of_int (floorLog2 b)) * 2 powr (real_of_int (- eb))"
      unfolding two_powr_add eb by simp
    also from floorLog2_bounds(1) [OF b]
    have "\<dots> \<le> b * 2 powr (real_of_int (- eb))" by (simp add: mult_right_mono)
    finally have "2 ^ nat 52 \<le> roundHalfEven (b * 2 powr (real_of_int (- eb)))"
      by (rule roundHalfEven_ge)
    then have "real_of_int (2 ^ nat 52) * 2 powr (real_of_int eb) \<le> roundDouble b"
      unfolding rb by (simp add: mult_right_mono del: of_int_power of_int_numeral)
    moreover have "real_of_int (2 ^ nat 52) * 2 powr (real_of_int eb)
        = 2 powr (real_of_int (floorLog2 b))"
      using two_powr_int [of 52] two_powr_add [of 52 eb] eb by simp
    ultimately have "2 powr (real_of_int (floorLog2 b)) \<le> roundDouble b" by simp
    with upper show ?thesis by (rule order_trans)
  qed
qed

lemma roundDouble_mono:
  assumes "a \<le> b"
  shows "roundDouble a \<le> roundDouble b"
proof -
  consider "0 < a" | "a \<le> 0" "0 \<le> b" | "b < 0" by linarith
  then show ?thesis
  proof cases
    case 1
    from this assms show ?thesis by (rule roundDouble_mono_pos)
  next
    case 2
    from roundDouble_nonpos [OF 2(1)] roundDouble_nonneg [OF 2(2)] show ?thesis by simp
  next
    case 3
    with assms have "0 < - b" "- b \<le> - a" by simp_all
    then have "roundDouble (- b) \<le> roundDouble (- a)" by (rule roundDouble_mono_pos)
    then show ?thesis by (simp add: roundDouble_minus)
  qed
qed

lemma two_powr_mono: "a \<le> b \<Longrightarrow> (2::real) powr (real_of_int a) \<le> 2 powr (real_of_int b)"
  by simp

lemma roundDouble_idem_pos:
  assumes q: "0 < q"
  shows "roundDouble (roundDouble q) = roundDouble q"
proof -
  define e where "e = max (floorLog2 q - 52) (- 1074)"
  define M where "M = roundHalfEven (q * 2 powr (real_of_int (- e)))"
  define r where "r = roundDouble q"
  have r: "r = real_of_int M * 2 powr (real_of_int e)"
    unfolding r_def M_def e_def by (rule roundDouble_pos [OF q])
  have e_lo: "- 1074 \<le> e" and e_fl: "floorLog2 q - 52 \<le> e" by (simp_all add: e_def)
  from roundDouble_nonneg [of q] q have "0 \<le> r" by (simp add: r_def)
  with r have M0: "0 \<le> M" by (simp add: zero_le_mult_iff)
  have "q < 2 powr (real_of_int (floorLog2 q + 1))" by (rule floorLog2_bounds [OF q])
  then have "q * 2 powr (real_of_int (- e))
      < 2 powr (real_of_int (floorLog2 q + 1)) * 2 powr (real_of_int (- e))"
    by (simp add: mult_strict_right_mono)
  also have "\<dots> = 2 powr (real_of_int (floorLog2 q + 1 - e))"
    unfolding two_powr_add by simp
  also have "\<dots> \<le> 2 powr (real_of_int 53)" by (rule two_powr_mono) (use e_fl in simp)
  also have "\<dots> = real_of_int (2 ^ nat 53)" by (rule two_powr_int) simp
  finally have "M \<le> 2 ^ nat 53" unfolding M_def by (intro roundHalfEven_le) simp
  then have M53: "M \<le> 2 ^ 53" by simp
  show ?thesis
  proof (cases "M = 0")
    case True
    with r have "r = 0" by simp
    then show ?thesis unfolding r_def [symmetric] by (simp add: roundDouble_def)
  next
    case False
    with M0 have Mpos: "0 < M" by simp
    with r have rpos: "0 < r" by simp
    define e' where "e' = max (floorLog2 r - 52) (- 1074)"
    have rr: "roundDouble r
        = real_of_int (roundHalfEven (r * 2 powr (real_of_int (- e'))))
            * 2 powr (real_of_int e')"
      unfolding e'_def by (rule roundDouble_pos [OF rpos])
    have "\<exists>K. r * 2 powr (real_of_int (- e')) = real_of_int K"
    proof (cases "M = 2 ^ 53")
      case True
      have M': "real_of_int M = 2 powr (real_of_int 53)"
        unfolding True using two_powr_int [of 53] by simp
      have r53: "r = 2 powr (real_of_int (53 + e))" unfolding r M' two_powr_add ..
      have "floorLog2 r = 53 + e"
        by (rule floorLog2_unique [OF rpos]) (simp_all add: r53)
      with e_lo have "e' = e + 1" by (simp add: e'_def)
      then have "r * 2 powr (real_of_int (- e')) = 2 powr (real_of_int 52)"
        unfolding r53 two_powr_add by simp
      also have "\<dots> = real_of_int (2 ^ nat 52)" by (rule two_powr_int) simp
      finally show ?thesis by blast
    next
      case False
      with M53 have "M + 1 \<le> 2 ^ 53" by simp
      then have "real_of_int (M + 1) \<le> real_of_int (2 ^ nat 53)" by simp
      also have "\<dots> = 2 powr (real_of_int 53)" by (rule two_powr_int [symmetric]) simp
      finally have "real_of_int M < 2 powr (real_of_int 53)" by simp
      then have "r < 2 powr (real_of_int 53) * 2 powr (real_of_int e)"
        unfolding r by (simp add: mult_strict_right_mono)
      then have "r < 2 powr (real_of_int (53 + e))" unfolding two_powr_add .
      with floorLog2_bounds(1) [OF rpos]
      have "2 powr (real_of_int (floorLog2 r)) < 2 powr (real_of_int (53 + e))"
        by (rule le_less_trans)
      then have "floorLog2 r < 53 + e" by simp
      with e_lo have le: "e' \<le> e" by (simp add: e'_def)
      then have d: "0 \<le> e - e'" by simp
      have "r * 2 powr (real_of_int (- e'))
          = real_of_int M * (2 powr (real_of_int e) * 2 powr (real_of_int (- e')))"
        unfolding r by simp
      also have "\<dots> = real_of_int M * 2 powr (real_of_int (e - e'))"
        unfolding two_powr_add by simp
      also have "\<dots> = real_of_int (M * 2 ^ nat (e - e'))"
        unfolding two_powr_int [OF d] by simp
      finally show ?thesis by blast
    qed
    then obtain K where K: "r * 2 powr (real_of_int (- e')) = real_of_int K" ..
    then have "roundDouble r = r * 2 powr (real_of_int (- e')) * 2 powr (real_of_int e')"
      unfolding rr by (simp add: roundHalfEven_of_int)
    also have "\<dots> = r * (2 powr (real_of_int (- e')) * 2 powr (real_of_int e'))" by simp
    also have "\<dots> = r" unfolding two_powr_add by simp
    finally show ?thesis unfolding r_def .
  qed
qed

lemma roundDouble_idem: "roundDouble (roundDouble q) = roundDouble q"
proof -
  consider "0 < q" | "q = 0" | "0 < - q" by linarith
  then show ?thesis
  proof cases
    case 1
    then show ?thesis by (rule roundDouble_idem_pos)
  next
    case 2
    then show ?thesis by (simp add: roundDouble_def)
  next
    case 3
    from roundDouble_idem_pos [OF 3] show ?thesis by (simp add: roundDouble_minus)
  qed
qed


section \<open>The two loops\<close>

text \<open>
  Induction over a run of a loop that returns: the rule of the fixed point, with the
  arguments of the function written out.
\<close>

lemma verticalLines_induct [consumes 1, case_names step]:
  assumes run: "verticalLines s x g = Some y"
    and step: "\<And>f s x g y.
      (\<And>s x g y. f s x g = Some y \<Longrightarrow> P s x g y) \<Longrightarrow>
      (if x \<le> gridEndX s
       then f s (numAdd x (spacingX s))
              (if rectX s \<le> x \<and> x \<le> numAdd (rectX s) (rectW s)
               then g @ lineElement x (gridStartY s) x (gridEndY s)
                          (numMul (lineWidth s) mmToPixel)
               else g)
       else Some g) = Some y \<Longrightarrow> P s x g y"
  shows "P s x g y"
proof -
  have "(case ((s, x), g) of (a, b) \<Rightarrow> (case a of (c, d) \<Rightarrow> P c d) b) y"
  proof (rule verticalLines.raw_induct)
    show "(case ((s, x), g) of (a, b) \<Rightarrow> (case a of (c, d) \<Rightarrow> verticalLines c d) b) = Some y"
      using run by simp
  qed (rule step)
  then show ?thesis by simp
qed

lemma horizontalLines_induct [consumes 1, case_names step]:
  assumes run: "horizontalLines s x g = Some y"
    and step: "\<And>f s y g r.
      (\<And>s y g r. f s y g = Some r \<Longrightarrow> P s y g r) \<Longrightarrow>
      (if y \<le> gridEndY s
       then f s (numAdd y (spacingY s))
              (if rectY s \<le> y \<and> y \<le> numAdd (rectY s) (rectH s)
               then g @ lineElement (gridStartX s) y (gridEndX s) y
                          (numMul (lineWidth s) mmToPixel)
               else g)
       else Some g) = Some r \<Longrightarrow> P s y g r"
  shows "P s x g y"
  using run by (rule horizontalLines.raw_induct [rotated]) (rule step)

lemma verticalLines_shape:
  assumes "verticalLines s x g = Some r"
  shows "\<exists>xs. r = g @ concat (map (\<lambda>x. lineElement x (rectY s) x (numAdd (rectY s) (rectH s))
                                        (numMul (lineWidth s) mmToPixel)) xs)
           \<and> (\<forall>x \<in> set xs. rectX s \<le> x \<and> x \<le> numAdd (rectX s) (rectW s))"
  using assms
proof (induction rule: verticalLines_induct)
  case (step f s x g y)
  let ?L = "\<lambda>x. lineElement x (rectY s) x (numAdd (rectY s) (rectH s))
                     (numMul (lineWidth s) mmToPixel)"
  let ?B = "\<lambda>x. rectX s \<le> x \<and> x \<le> numAdd (rectX s) (rectW s)"
  show ?case
  proof (cases "x \<le> gridEndX s")
    case False
    with step(2) have "y = g" by simp
    then have "y = g @ concat (map ?L []) \<and> (\<forall>x \<in> set []. ?B x)" by simp
    then show ?thesis by blast
  next
    case True
    show ?thesis
    proof (cases "?B x")
      case inside: True
      from True inside step(2)
      have "f s (numAdd x (spacingX s)) (g @ ?L x) = Some y"
        by (simp add: gridStartY_def gridEndY_def)
      from step(1) [OF this] obtain xs where
        "y = (g @ ?L x) @ concat (map ?L xs)" and "\<forall>x \<in> set xs. ?B x" by blast
      with inside have "y = g @ concat (map ?L (x # xs)) \<and> (\<forall>x \<in> set (x # xs). ?B x)"
        by simp
      then show ?thesis by blast
    next
      case outside: False
      from True outside step(2)
      have "f s (numAdd x (spacingX s)) g = Some y" by auto
      from step(1) [OF this] show ?thesis .
    qed
  qed
qed


lemma horizontalLines_shape:
  assumes "horizontalLines s y g = Some r"
  shows "\<exists>ys. r = g @ concat (map (\<lambda>y. lineElement (rectX s) y (numAdd (rectX s) (rectW s)) y
                                        (numMul (lineWidth s) mmToPixel)) ys)
           \<and> (\<forall>y \<in> set ys. rectY s \<le> y \<and> y \<le> numAdd (rectY s) (rectH s))"
  using assms
proof (induction rule: horizontalLines_induct)
  case (step f s y g r)
  let ?L = "\<lambda>y. lineElement (rectX s) y (numAdd (rectX s) (rectW s)) y
                     (numMul (lineWidth s) mmToPixel)"
  let ?B = "\<lambda>y. rectY s \<le> y \<and> y \<le> numAdd (rectY s) (rectH s)"
  show ?case
  proof (cases "y \<le> gridEndY s")
    case False
    with step(2) have "r = g" by simp
    then have "r = g @ concat (map ?L []) \<and> (\<forall>y \<in> set []. ?B y)" by simp
    then show ?thesis by blast
  next
    case True
    show ?thesis
    proof (cases "?B y")
      case inside: True
      from True inside step(2)
      have "f s (numAdd y (spacingY s)) (g @ ?L y) = Some r"
        by (simp add: gridStartX_def gridEndX_def)
      from step(1) [OF this] obtain ys where
        "r = (g @ ?L y) @ concat (map ?L ys)" and "\<forall>y \<in> set ys. ?B y" by blast
      with inside have "r = g @ concat (map ?L (y # ys)) \<and> (\<forall>y \<in> set (y # ys). ?B y)"
        by simp
      then show ?thesis by blast
    next
      case outside: False
      from True outside step(2)
      have "f s (numAdd y (spacingY s)) g = Some r" by auto
      from step(1) [OF this] show ?thesis .
    qed
  qed
qed

lemma verticalLines_None:
  assumes "verticalLines s x g = Some r" and "Inv x"
    and "\<forall>x. Inv x \<longrightarrow> x \<le> gridEndX s \<and> Inv (numAdd x (spacingX s))"
  shows False
  using assms
proof (induction rule: verticalLines_induct)
  case (step f s x g y)
  from step(3,4) have "x \<le> gridEndX s" and "Inv (numAdd x (spacingX s))" by auto
  with step(2) obtain g' where "f s (numAdd x (spacingX s)) g' = Some y" by simp
  from step(1) [OF this \<open>Inv (numAdd x (spacingX s))\<close> step(4)] show ?case .
qed

lemma horizontalLines_None:
  assumes "horizontalLines s y g = Some r" and "Inv y"
    and "\<forall>y. Inv y \<longrightarrow> y \<le> gridEndY s \<and> Inv (numAdd y (spacingY s))"
  shows False
  using assms
proof (induction rule: horizontalLines_induct)
  case (step f s y g r)
  from step(3,4) have "y \<le> gridEndY s" and "Inv (numAdd y (spacingY s))" by auto
  with step(2) obtain g' where "f s (numAdd y (spacingY s)) g' = Some r" by simp
  from step(1) [OF this \<open>Inv (numAdd y (spacingY s))\<close> step(4)] show ?case .
qed

lemma verticalLines_transfer:
  assumes "verticalLines t x g = Some r"
    and "gridEndX t = gridEndX s" "spacingX t = spacingX s" "rectX t = rectX s"
    and "rectW t = rectW s" "gridStartY t = gridStartY s" "gridEndY t = gridEndY s"
    and "lineWidth t = lineWidth s"
  shows "verticalLines s x g = Some r"
  using assms
proof (induction rule: verticalLines_induct)
  case (step f t x g y)
  show ?case
  proof (cases "x \<le> gridEndX t")
    case False
    with step(2) step(3) show ?thesis by (subst verticalLines.simps) simp
  next
    case True
    let ?g = "if rectX t \<le> x \<and> x \<le> numAdd (rectX t) (rectW t)
              then g @ lineElement x (gridStartY t) x (gridEndY t)
                         (numMul (lineWidth t) mmToPixel)
              else g"
    from True step(2) have "f t (numAdd x (spacingX t)) ?g = Some y" by simp
    then have "verticalLines s (numAdd x (spacingX t)) ?g = Some y"
      by (rule step(1)) (rule step)+
    with True step(3-9) show ?thesis by (subst verticalLines.simps) (auto split: if_splits)
  qed
qed

lemma horizontalLines_transfer:
  assumes "horizontalLines t y g = Some r"
    and "gridEndY t = gridEndY s" "spacingY t = spacingY s" "rectY t = rectY s"
    and "rectH t = rectH s" "gridStartX t = gridStartX s" "gridEndX t = gridEndX s"
    and "lineWidth t = lineWidth s"
  shows "horizontalLines s y g = Some r"
  using assms
proof (induction rule: horizontalLines_induct)
  case (step f t y g r)
  show ?case
  proof (cases "y \<le> gridEndY t")
    case False
    with step(2) step(3) show ?thesis by (subst horizontalLines.simps) simp
  next
    case True
    let ?g = "if rectY t \<le> y \<and> y \<le> numAdd (rectY t) (rectH t)
              then g @ lineElement (gridStartX t) y (gridEndX t) y
                         (numMul (lineWidth t) mmToPixel)
              else g"
    from True step(2) have "f t (numAdd y (spacingY t)) ?g = Some r" by simp
    then have "horizontalLines s (numAdd y (spacingY t)) ?g = Some r"
      by (rule step(1)) (rule step)+
    with True step(3-9) show ?thesis by (subst horizontalLines.simps) (auto split: if_splits)
  qed
qed


section \<open>When the function returns\<close>

lemma roundHalfEven_near:
  "real_of_int (roundHalfEven q) \<le> q + 1 / 2" "q - 1 / 2 \<le> real_of_int (roundHalfEven q)"
  by (auto simp: roundHalfEven_def Let_def; linarith)+

text \<open>Rounding loses at most half a unit of the last bit.\<close>

lemma roundDouble_lower:
  assumes "q \<noteq> 0"
  shows "q - 2 powr (real_of_int (max (floorLog2 \<bar>q\<bar> - 52) (- 1074))) / 2 \<le> roundDouble q"
proof -
  define e where "e = max (floorLog2 \<bar>q\<bar> - 52) (- 1074)"
  have p: "0 < 2 powr (real_of_int e)" by simp
  have u: "(2::real) powr (real_of_int (- e)) * 2 powr (real_of_int e) = 1"
    unfolding two_powr_add by simp
  show ?thesis
  proof (cases "0 < q")
    case True
    define y where "y = q * 2 powr (real_of_int (- e))"
    from True have r: "roundDouble q = real_of_int (roundHalfEven y) * 2 powr (real_of_int e)"
      using roundDouble_pos [OF True] by (simp add: e_def y_def)
    have "(y - 1 / 2) * 2 powr (real_of_int e)
        \<le> real_of_int (roundHalfEven y) * 2 powr (real_of_int e)"
      using roundHalfEven_near(2) [of y] p by (intro mult_right_mono) simp_all
    moreover have "y * 2 powr (real_of_int e) = q"
      unfolding y_def using u by (simp add: mult.assoc)
    ultimately show ?thesis unfolding r e_def [symmetric] by (simp add: algebra_simps)
  next
    case False
    with assms have n: "0 < - q" by simp
    define y where "y = - q * 2 powr (real_of_int (- e))"
    from n have "roundDouble (- q) = real_of_int (roundHalfEven y) * 2 powr (real_of_int e)"
      using roundDouble_pos [OF n] by (simp add: e_def y_def)
    then have r: "roundDouble q = - (real_of_int (roundHalfEven y) * 2 powr (real_of_int e))"
      by (simp add: roundDouble_minus)
    have "real_of_int (roundHalfEven y) * 2 powr (real_of_int e)
        \<le> (y + 1 / 2) * 2 powr (real_of_int e)"
      using roundHalfEven_near(1) [of y] p by (intro mult_right_mono) simp_all
    moreover have "y * 2 powr (real_of_int e) = - q"
      unfolding y_def using u by (simp add: mult.assoc)
    ultimately show ?thesis unfolding r e_def [symmetric] by (simp add: algebra_simps)
  qed
qed

text \<open>The least positive double is \<open>2 powr - 1074\<close>.\<close>

lemma roundDouble_least_positive:
  assumes "0 < roundDouble y"
  shows "2 powr (real_of_int (- 1074)) \<le> roundDouble y"
proof -
  from assms roundDouble_nonpos [of y] have y: "0 < y" by (cases "0 < y") simp_all
  define e where "e = max (floorLog2 y - 52) (- 1074)"
  define M where "M = roundHalfEven (y * 2 powr (real_of_int (- e)))"
  have r: "roundDouble y = real_of_int M * 2 powr (real_of_int e)"
    unfolding M_def e_def by (rule roundDouble_pos [OF y])
  with assms have "0 < real_of_int M" by (simp add: zero_less_mult_iff)
  then have "1 \<le> M" by simp
  then have "1 * 2 powr (real_of_int e) \<le> real_of_int M * 2 powr (real_of_int e)"
    by (intro mult_right_mono) simp_all
  then have "2 powr (real_of_int e) \<le> real_of_int M * 2 powr (real_of_int e)"
    by (simp only: mult_1)
  moreover have "2 powr (real_of_int (- 1074)) \<le> 2 powr (real_of_int e)"
    by (rule two_powr_mono) (simp add: e_def)
  ultimately show ?thesis unfolding r by (rule order_trans [rotated])
qed

text \<open>
  A step of a loop: when the spacing is a positive double not below \<open>2 powr - 52\<close> of
  the coordinates, the variable grows by at least half the spacing.
\<close>

lemma step_progress:
  assumes sp: "0 < roundDouble c" 
    and big: "B + roundDouble c \<le> 2 ^ 52 * roundDouble c" and x: "\<bar>x\<bar> \<le> B"
  shows "x + roundDouble c / 2 \<le> numAdd x (roundDouble c)"
proof -
  define d where "d = roundDouble c"
  define q where "q = x + d"
  define e where "e = max (floorLog2 \<bar>q\<bar> - 52) (- 1074)"
  from sp have d: "0 < d" by (simp add: d_def)
  show ?thesis
  proof (cases "q = 0")
    case True
    then have "numAdd x d = 0" by (simp add: numAdd_def q_def roundDouble_def)
    with True d show ?thesis unfolding d_def [symmetric] q_def by simp
  next
    case False
    have "2 powr (real_of_int e) \<le> d"
    proof (cases "floorLog2 \<bar>q\<bar> - 52 \<le> - 1074")
      case True
      then have "e = - 1074" by (simp add: e_def)
      with roundDouble_least_positive [OF sp] show ?thesis by (simp add: d_def)
    next
      case unclamped: False
      then have e: "e = floorLog2 \<bar>q\<bar> - 52" by (simp add: e_def)
      define t where "t = (2::real) powr (real_of_int (- 52))"
      have t: "0 \<le> t" by (simp add: t_def)
      have "(2::real) powr (real_of_int 52) * t = 1"
        unfolding t_def two_powr_add by simp
      then have one: "(2::real) ^ 52 * t = 1" using two_powr_int [of 52] by simp
      from False have "0 < \<bar>q\<bar>" by simp
      from floorLog2_bounds(1) [OF this]
      have "2 powr (real_of_int (floorLog2 \<bar>q\<bar>)) \<le> \<bar>x\<bar> + d" using d by (simp add: q_def)
      also from x have "\<dots> \<le> B + d" by simp
      also from big have "\<dots> \<le> 2 ^ 52 * d" by (simp only: d_def)
      finally have "2 powr (real_of_int (floorLog2 \<bar>q\<bar>)) * t \<le> 2 ^ 52 * d * t"
        using t by (rule mult_right_mono)
      also have "2 ^ 52 * d * t = d * (2 ^ 52 * t)" by (simp only: mult_ac)
      also have "\<dots> = d" unfolding one by simp
      finally show ?thesis unfolding e t_def two_powr_add by simp
    qed
    with roundDouble_lower [OF False] have "q - d / 2 \<le> roundDouble q"
      unfolding e_def by simp
    then show ?thesis unfolding d_def [symmetric] by (simp add: numAdd_def q_def)
  qed
qed


lemma verticalLines_returns:
  assumes sp: "0 < spacingX s"
    and big: "max \<bar>rectX s\<bar> \<bar>gridEndX s\<bar> + spacingX s \<le> 2 ^ 52 * spacingX s"
    and start: "rectX s \<le> x"
  shows "\<exists>r. verticalLines s x g = Some r"
proof -
  define d where "d = spacingX s"
  have d: "d = roundDouble (gridSpacingX s * mmToPixel)"
    by (simp add: d_def spacingX_def numMul_def)
  have bound: "rectX s \<le> x \<longrightarrow> (gridEndX s < x \<or> (gridEndX s - x) * 2 < real n * d)
      \<longrightarrow> (\<exists>r. verticalLines s x g = Some r)" for n x g
  proof (induction n arbitrary: x g)
    case 0
    show ?case by (subst verticalLines.simps) auto
  next
    case (Suc n)
    show ?case
    proof (intro impI)
      assume lo: "rectX s \<le> x"
        and m: "gridEndX s < x \<or> (gridEndX s - x) * 2 < real (Suc n) * d"
      show "\<exists>r. verticalLines s x g = Some r"
      proof (cases "x \<le> gridEndX s")
        case False
        then show ?thesis by (subst verticalLines.simps) simp
      next
        case True
        with lo have "\<bar>x\<bar> \<le> max \<bar>rectX s\<bar> \<bar>gridEndX s\<bar>" by linarith
        from step_progress [OF sp [unfolded d_def [symmetric] d] big [unfolded d_def [symmetric] d] this]
        have p: "x + d / 2 \<le> numAdd x d" by (simp add: d)
        with lo sp have "rectX s \<le> numAdd x d" by (simp add: d_def)
        moreover from True m p have "(gridEndX s - numAdd x d) * 2 < real n * d"
          by (simp add: algebra_simps)
        ultimately have "\<exists>r. verticalLines s (numAdd x d) h = Some r" for h
          using Suc.IH [of "numAdd x d" h] by simp
        with True show ?thesis by (subst verticalLines.simps) (simp add: d_def)
      qed
    qed
  qed
  from sp have "0 < d" by (simp add: d_def)
  obtain n where "(gridEndX s - x) * 2 / d < real n" using reals_Archimedean2 by blast
  with \<open>0 < d\<close> have "(gridEndX s - x) * 2 < real n * d" by (simp add: field_simps)
  with bound [of x n g] start show ?thesis by simp
qed

lemma horizontalLines_returns:
  assumes sp: "0 < spacingY s"
    and big: "max \<bar>rectY s\<bar> \<bar>gridEndY s\<bar> + spacingY s \<le> 2 ^ 52 * spacingY s"
    and start: "rectY s \<le> x"
  shows "\<exists>r. horizontalLines s x g = Some r"
proof -
  define d where "d = spacingY s"
  have d: "d = roundDouble (gridSpacingY s * mmToPixel)"
    by (simp add: d_def spacingY_def numMul_def)
  have bound: "rectY s \<le> x \<longrightarrow> (gridEndY s < x \<or> (gridEndY s - x) * 2 < real n * d)
      \<longrightarrow> (\<exists>r. horizontalLines s x g = Some r)" for n x g
  proof (induction n arbitrary: x g)
    case 0
    show ?case by (subst horizontalLines.simps) auto
  next
    case (Suc n)
    show ?case
    proof (intro impI)
      assume lo: "rectY s \<le> x"
        and m: "gridEndY s < x \<or> (gridEndY s - x) * 2 < real (Suc n) * d"
      show "\<exists>r. horizontalLines s x g = Some r"
      proof (cases "x \<le> gridEndY s")
        case False
        then show ?thesis by (subst horizontalLines.simps) simp
      next
        case True
        with lo have "\<bar>x\<bar> \<le> max \<bar>rectY s\<bar> \<bar>gridEndY s\<bar>" by linarith
        from step_progress [OF sp [unfolded d_def [symmetric] d] big [unfolded d_def [symmetric] d] this]
        have p: "x + d / 2 \<le> numAdd x d" by (simp add: d)
        with lo sp have "rectY s \<le> numAdd x d" by (simp add: d_def)
        moreover from True m p have "(gridEndY s - numAdd x d) * 2 < real n * d"
          by (simp add: algebra_simps)
        ultimately have "\<exists>r. horizontalLines s (numAdd x d) h = Some r" for h
          using Suc.IH [of "numAdd x d" h] by simp
        with True show ?thesis by (subst horizontalLines.simps) (simp add: d_def)
      qed
    qed
  qed
  from sp have "0 < d" by (simp add: d_def)
  obtain n where "(gridEndY s - x) * 2 / d < real n" using reals_Archimedean2 by blast
  with \<open>0 < d\<close> have "(gridEndY s - x) * 2 < real n * d" by (simp add: field_simps)
  with bound [of x n g] start show ?thesis by simp
qed

text \<open>
  So \<open>generateSVG\<close> returns whenever both spacings, in device space, are positive and
  not below \<open>2 powr - 52\<close> of the coordinates they are added to. Smaller positive
  spacings can be absorbed by the rounding of \<open>x += spacingX\<close>.
\<close>

lemma generateSVG_returns:
  assumes "0 < spacingX s"
    and "max \<bar>rectX s\<bar> \<bar>gridEndX s\<bar> + spacingX s \<le> 2 ^ 52 * spacingX s"
    and "0 < spacingY s"
    and "max \<bar>rectY s\<bar> \<bar>gridEndY s\<bar> + spacingY s \<le> 2 ^ 52 * spacingY s"
  shows "\<exists>out. generateSVG s = Some out"
proof -
  from verticalLines_returns [OF assms(1,2), of "alignedStartX s" "[]"]
  obtain vertical where "verticalLines s (alignedStartX s) [] = Some vertical"
    by (auto simp: alignedStartX_def)
  moreover from horizontalLines_returns [OF assms(3,4), of "alignedStartY s" vertical]
  obtain gridLines where "horizontalLines s (alignedStartY s) vertical = Some gridLines"
    by (auto simp: alignedStartY_def)
  ultimately show ?thesis by (simp add: generateSVG_def)
qed


section \<open>Evaluation\<close>

text \<open>Rounding a numeral: the bit length of a numeral unfolds digit by digit.\<close>

lemma bitLength_numeral [simp]:
  "bitLength 0 = 0"
  "bitLength (Suc 0) = 1"
  "bitLength (numeral k) = Suc (bitLength (numeral k div 2))"
  by (simp_all add: bitLength.simps [of 0] bitLength.simps [of "Suc 0"]
      bitLength.simps [of "numeral k"])

lemmas number_eval = numAdd_def numSub_def numMul_def numDiv_def roundDouble_def
  floorLog2_def roundHalfEven_def scale2_def Let_def

lemmas geometry_defs = pageWidthMm_def pageHeightMm_def rectangleX_def rectangleY_def
  svgWidth_def svgHeight_def rectW_def rectH_def rectX_def rectY_def spacingX_def spacingY_def
  gridStartX_def gridEndX_def gridStartY_def gridEndY_def alignedStartX_def alignedStartY_def

text \<open>The literal \<^verbatim>\<open>3.779527559\<close> as a double.\<close>

lemma mmToPixel_value: "mmToPixel = 2127684863293615 / 562949953421312"
  by (simp add: mmToPixel_def number_eval)

text \<open>
  The geometry of the initial settings. In decimals: \<open>rectX\<close> is \<open>207.874015745\<close>,
  \<open>rectW\<close> is \<open>377.9527559\<close>, \<open>gridEndX\<close> is \<open>585.826771645\<close> and \<open>spacingX\<close> is
  \<open>37.79527559\<close>, each the double printed so.
\<close>

lemma initial_values:
  "pageWidthMm initialSettings = 210"
  "pageHeightMm initialSettings = 297"
  "rectangleX initialSettings = 55"
  "rectangleY initialSettings = 217 / 2"
  "svgWidth initialSettings = 3490732978841087 / 4398046511104"
  "svgHeight initialSettings = 2468446892180483 / 2199023255552"
  "rectW initialSettings = 6649015197792547 / 17592186044416"
  "rectH initialSettings = 2659606079117019 / 8796093022208"
  "rectX initialSettings = 3656958358785901 / 17592186044416"
  "rectY initialSettings = 7214181489604913 / 17592186044416"
  "spacingX initialSettings = 2659606079117019 / 70368744177664"
  "spacingY initialSettings = 2659606079117019 / 70368744177664"
  "gridEndX initialSettings = 644123347286153 / 1099511627776"
  "gridEndY initialSettings = 1566674205979869 / 2199023255552"
  "numMul (lineWidth initialSettings) mmToPixel = 425536972658723 / 562949953421312"
  "numMul (rectangleBorderWidth initialSettings) mmToPixel = 425536972658723 / 281474976710656"
  by (simp_all add: geometry_defs initialSettings_def mmToPixel_value number_eval)

lemma initial_vertical:
  "verticalLines initialSettings (alignedStartX initialSettings) [] =
   Some (concat (map (\<lambda>x. lineElement x (rectY initialSettings) x (numAdd (rectY initialSettings) (rectH initialSettings))
                      (numMul (lineWidth initialSettings) mmToPixel))
         [3656958358785901 / 17592186044416,
          1080464969641289 / 4398046511104,
          4986761398344411 / 17592186044416,
          2825831459061833 / 8796093022208,
          6316564437902921 / 17592186044416,
          6817837849299 / 17179869184,
          7646367477461431 / 17592186044416,
          4155634498620343 / 8796093022208,
          8976170517019941 / 17592186044416,
          2410268009199799 / 4398046511104]))"
  by (simp add: verticalLines.simps alignedStartX_def gridStartY_def initial_values number_eval)

lemma initial_horizontal:
  "horizontalLines initialSettings (alignedStartY initialSettings) g =
   Some (g @ concat (map (\<lambda>y. lineElement (rectX initialSettings) y (numAdd (rectX initialSettings) (rectW initialSettings)) y
                      (numMul (lineWidth initialSettings) mmToPixel))
         [7214181489604913 / 17592186044416,
          984885376173021 / 2199023255552,
          8543984529163423 / 17592186044416,
          4604443024471339 / 8796093022208,
          2468446892180483 / 4398046511104,
          5269344544250593 / 8796093022208,
          1400448826035055 / 2199023255552,
          5934246064029847 / 8796093022208,
          3133348411959737 / 4398046511104]))"
  by (simp add: horizontalLines.simps alignedStartY_def gridStartX_def initial_values
      number_eval)

lemma generateSVG_initial:
  "generateSVG initialSettings =
   Some (svgDocument initialSettings
     (concat (map (\<lambda>x. lineElement x (rectY initialSettings) x (numAdd (rectY initialSettings) (rectH initialSettings))
                      (numMul (lineWidth initialSettings) mmToPixel))
         [3656958358785901 / 17592186044416,
          1080464969641289 / 4398046511104,
          4986761398344411 / 17592186044416,
          2825831459061833 / 8796093022208,
          6316564437902921 / 17592186044416,
          6817837849299 / 17179869184,
          7646367477461431 / 17592186044416,
          4155634498620343 / 8796093022208,
          8976170517019941 / 17592186044416,
          2410268009199799 / 4398046511104])
      @ concat (map (\<lambda>y. lineElement (rectX initialSettings) y (numAdd (rectX initialSettings) (rectW initialSettings)) y
                      (numMul (lineWidth initialSettings) mmToPixel))
         [7214181489604913 / 17592186044416,
          984885376173021 / 2199023255552,
          8543984529163423 / 17592186044416,
          4604443024471339 / 8796093022208,
          2468446892180483 / 4398046511104,
          5269344544250593 / 8796093022208,
          1400448826035055 / 2199023255552,
          5934246064029847 / 8796093022208,
          3133348411959737 / 4398046511104])))"
  unfolding generateSVG_def initial_vertical option.case initial_horizontal ..

lemma initial_returns: "generateSVG initialSettings = Some (the (generateSVG initialSettings))"
  by (simp add: generateSVG_initial)

text \<open>
  The candidate after the tenth vertical line: ten rounded additions of the spacing from
  \<open>207.874015745\<close> give \<open>585.8267716450001\<close>, above \<open>gridEndX\<close>.
\<close>

lemma eleventh_candidate:
  "gridEndX initialSettings
     < numAdd (2410268009199799 / 4398046511104) (spacingX initialSettings)"
  by (simp add: initial_values number_eval)

text \<open>A page narrower than the rectangle.\<close>

lemma narrow_page_values:
  "rectX (initialSettings\<lparr>pageWidth := 50, gridSpacingX := 50, gridSpacingY := 40\<rparr>) = - (6649015197792547 / 70368744177664)"
  "rectY (initialSettings\<lparr>pageWidth := 50, gridSpacingX := 50, gridSpacingY := 40\<rparr>) = 7214181489604913 / 17592186044416"
  "rectW (initialSettings\<lparr>pageWidth := 50, gridSpacingX := 50, gridSpacingY := 40\<rparr>) = 6649015197792547 / 17592186044416"
  "rectH (initialSettings\<lparr>pageWidth := 50, gridSpacingX := 50, gridSpacingY := 40\<rparr>) = 2659606079117019 / 8796093022208"
  "spacingX (initialSettings\<lparr>pageWidth := 50, gridSpacingX := 50, gridSpacingY := 40\<rparr>) = 6649015197792547 / 35184372088832"
  "spacingY (initialSettings\<lparr>pageWidth := 50, gridSpacingX := 50, gridSpacingY := 40\<rparr>) = 2659606079117019 / 17592186044416"
  "gridEndX (initialSettings\<lparr>pageWidth := 50, gridSpacingX := 50, gridSpacingY := 40\<rparr>) = 2493380699172205 / 8796093022208"
  "gridEndY (initialSettings\<lparr>pageWidth := 50, gridSpacingX := 50, gridSpacingY := 40\<rparr>) = 1566674205979869 / 2199023255552"
  by (simp_all add: geometry_defs initialSettings_def mmToPixel_value number_eval)

lemma narrow_page_returns: "generateSVG (initialSettings\<lparr>pageWidth := 50, gridSpacingX := 50, gridSpacingY := 40\<rparr>) \<noteq> None"
  by (simp add: generateSVG_def verticalLines.simps horizontalLines.simps alignedStartX_def
      alignedStartY_def narrow_page_values number_eval)

section \<open>What a returned document looks like\<close>

lemma generateSVG_Some:
  assumes "generateSVG s = Some out"
  shows "\<exists>vertical gridLines.
           verticalLines s (alignedStartX s) [] = Some vertical
         \<and> horizontalLines s (alignedStartY s) vertical = Some gridLines
         \<and> out = svgDocument s gridLines"
  using assms by (auto simp: generateSVG_def split: option.splits)

lemma generateSVG_lines:
  assumes "generateSVG s = Some out"
  shows "\<exists>xs ys. out = svgDocument s (concat (map (\<lambda>x. lineElement x (rectY s) x (numAdd (rectY s) (rectH s))
                      (numMul (lineWidth s) mmToPixel)) xs) @ concat (map (\<lambda>y. lineElement (rectX s) y (numAdd (rectX s) (rectW s)) y
                      (numMul (lineWidth s) mmToPixel)) ys))
           \<and> (\<forall>x \<in> set xs. rectX s \<le> x \<and> x \<le> numAdd (rectX s) (rectW s))
           \<and> (\<forall>y \<in> set ys. rectY s \<le> y \<and> y \<le> numAdd (rectY s) (rectH s))"
proof -
  from generateSVG_Some [OF assms] obtain vertical gridLines where
    v: "verticalLines s (alignedStartX s) [] = Some vertical" and
    h: "horizontalLines s (alignedStartY s) vertical = Some gridLines" and
    out: "out = svgDocument s gridLines" by blast
  from verticalLines_shape [OF v] obtain xs where
    xs: "vertical = concat (map (\<lambda>x. lineElement x (rectY s) x (numAdd (rectY s) (rectH s))
                      (numMul (lineWidth s) mmToPixel)) xs)"
      "\<forall>x \<in> set xs. rectX s \<le> x \<and> x \<le> numAdd (rectX s) (rectW s)" by auto
  from horizontalLines_shape [OF h] obtain ys where
    ys: "gridLines = vertical @ concat (map (\<lambda>y. lineElement (rectX s) y (numAdd (rectX s) (rectW s)) y
                      (numMul (lineWidth s) mmToPixel)) ys)"
      "\<forall>y \<in> set ys. rectY s \<le> y \<and> y \<le> numAdd (rectY s) (rectH s)" by auto
  from out xs ys show ?thesis by blast
qed

text \<open>The loops read the settings only through the geometry and the line width.\<close>

lemma verticalLines_eq:
  assumes "gridEndX t = gridEndX s" "spacingX t = spacingX s" "rectX t = rectX s"
    and "rectW t = rectW s" "gridStartY t = gridStartY s" "gridEndY t = gridEndY s"
    and "lineWidth t = lineWidth s"
  shows "verticalLines t x g = verticalLines s x g"
proof (cases "verticalLines t x g")
  case (Some r)
  from verticalLines_transfer [OF Some assms] Some show ?thesis by simp
next
  case None
  show ?thesis
  proof (cases "verticalLines s x g")
    case (Some r)
    from verticalLines_transfer [OF Some assms [symmetric]] None show ?thesis by simp
  qed (simp add: None)
qed

lemma horizontalLines_eq:
  assumes "gridEndY t = gridEndY s" "spacingY t = spacingY s" "rectY t = rectY s"
    and "rectH t = rectH s" "gridStartX t = gridStartX s" "gridEndX t = gridEndX s"
    and "lineWidth t = lineWidth s"
  shows "horizontalLines t y g = horizontalLines s y g"
proof (cases "horizontalLines t y g")
  case (Some r)
  from horizontalLines_transfer [OF Some assms] Some show ?thesis by simp
next
  case None
  show ?thesis
  proof (cases "horizontalLines s y g")
    case (Some r)
    from horizontalLines_transfer [OF Some assms [symmetric]] None show ?thesis by simp
  qed (simp add: None)
qed


text \<open>A loop whose variable stays at or below the end of the grid never returns.\<close>

lemma verticalLines_never:
  assumes "Inv x" and "\<forall>x. Inv x \<longrightarrow> x \<le> gridEndX s \<and> Inv (numAdd x (spacingX s))"
  shows "verticalLines s x g = None"
proof (cases "verticalLines s x g")
  case (Some r)
  from verticalLines_None [OF Some assms] show ?thesis ..
qed simp

lemma horizontalLines_never:
  assumes "Inv y" and "\<forall>y. Inv y \<longrightarrow> y \<le> gridEndY s \<and> Inv (numAdd y (spacingY s))"
  shows "horizontalLines s y g = None"
proof (cases "horizontalLines s y g")
  case (Some r)
  from horizontalLines_None [OF Some assms] show ?thesis ..
qed simp

text \<open>
  With a spacing of zero or below the loop variable, a double at or below the double
  \<open>gridEndX\<close>, stays there: the rounding is monotone and \<open>gridEndX\<close> is its own
  rounding.
\<close>

lemma mmToPixel_pos: "0 < mmToPixel"
  by (simp add: mmToPixel_value)

lemma verticalLines_nonpositive:
  assumes "gridSpacingX s \<le> 0" and "0 \<le> rectangleWidth s"
  shows "verticalLines s (alignedStartX s) g = None"
proof (rule verticalLines_never [where Inv = "\<lambda>x. x \<le> gridEndX s"])
  from assms(2) mmToPixel_pos have "0 \<le> rectW s"
    unfolding rectW_def numMul_def by (intro roundDouble_nonneg) simp
  then have "roundDouble (rectX s) \<le> roundDouble (rectX s + rectW s)"
    by (intro roundDouble_mono) simp
  moreover have "roundDouble (rectX s) = rectX s"
    unfolding rectX_def numMul_def by (rule roundDouble_idem)
  ultimately show "alignedStartX s \<le> gridEndX s"
    by (simp add: alignedStartX_def gridEndX_def numAdd_def)
next
  from assms(1) mmToPixel_pos have sp: "spacingX s \<le> 0"
    unfolding spacingX_def numMul_def by (intro roundDouble_nonpos) (simp add: mult_le_0_iff)
  have e: "roundDouble (gridEndX s) = gridEndX s"
    unfolding gridEndX_def numAdd_def by (rule roundDouble_idem)
  show "\<forall>x. x \<le> gridEndX s \<longrightarrow> x \<le> gridEndX s \<and> numAdd x (spacingX s) \<le> gridEndX s"
  proof (intro allI impI conjI)
    fix x assume x: "x \<le> gridEndX s"
    then show "x \<le> gridEndX s" .
    from x sp have "roundDouble (x + spacingX s) \<le> roundDouble (gridEndX s)"
      by (intro roundDouble_mono) simp
    then show "numAdd x (spacingX s) \<le> gridEndX s" by (simp add: numAdd_def e)
  qed
qed

lemma horizontalLines_nonpositive:
  assumes "gridSpacingY s \<le> 0" and "0 \<le> rectangleHeight s"
  shows "horizontalLines s (alignedStartY s) g = None"
proof (rule horizontalLines_never [where Inv = "\<lambda>y. y \<le> gridEndY s"])
  from assms(2) mmToPixel_pos have "0 \<le> rectH s"
    unfolding rectH_def numMul_def by (intro roundDouble_nonneg) simp
  then have "roundDouble (rectY s) \<le> roundDouble (rectY s + rectH s)"
    by (intro roundDouble_mono) simp
  moreover have "roundDouble (rectY s) = rectY s"
    unfolding rectY_def numMul_def by (rule roundDouble_idem)
  ultimately show "alignedStartY s \<le> gridEndY s"
    by (simp add: alignedStartY_def gridEndY_def numAdd_def)
next
  from assms(1) mmToPixel_pos have sp: "spacingY s \<le> 0"
    unfolding spacingY_def numMul_def by (intro roundDouble_nonpos) (simp add: mult_le_0_iff)
  have e: "roundDouble (gridEndY s) = gridEndY s"
    unfolding gridEndY_def numAdd_def by (rule roundDouble_idem)
  show "\<forall>y. y \<le> gridEndY s \<longrightarrow> y \<le> gridEndY s \<and> numAdd y (spacingY s) \<le> gridEndY s"
  proof (intro allI impI conjI)
    fix y assume y: "y \<le> gridEndY s"
    then show "y \<le> gridEndY s" .
    from y sp have "roundDouble (y + spacingY s) \<le> roundDouble (gridEndY s)"
      by (intro roundDouble_mono) simp
    then show "numAdd y (spacingY s) \<le> gridEndY s" by (simp add: numAdd_def e)
  qed
qed


text \<open>
  The function reads nine fields of the settings (the destructuring of lines 36 to 39);
  settings that agree on them give the same result.
\<close>

lemma generateSVG_read_fields:
  assumes "pageWidth t = pageWidth s" "pageHeight t = pageHeight s" "pageUnit t = pageUnit s"
    and "gridSpacingX t = gridSpacingX s" "gridSpacingY t = gridSpacingY s"
    and "lineWidth t = lineWidth s" "rectangleWidth t = rectangleWidth s"
    and "rectangleHeight t = rectangleHeight s"
    and "rectangleBorderWidth t = rectangleBorderWidth s"
  shows "generateSVG t = generateSVG s"
proof -
  have v: "verticalLines t x g = verticalLines s x g" for x g
    by (rule verticalLines_eq) (simp_all add: geometry_defs assms)
  have h: "horizontalLines t y g = horizontalLines s y g" for y g
    by (rule horizontalLines_eq) (simp_all add: geometry_defs assms)
  have d: "svgDocument t g = svgDocument s g" for g
    by (simp add: svgDocument_def geometry_defs assms)
  have a: "alignedStartX t = alignedStartX s" "alignedStartY t = alignedStartY s"
    by (simp_all add: geometry_defs assms)
  show ?thesis unfolding generateSVG_def v h d a ..
qed

section \<open>The claims\<close>

text \<open>
  Claim C1: for a grid spacing of zero or below, in either direction, \<open>generateSVG\<close>
  ends and returns a string. The code has no guard on the spacing, and does the opposite:
  when a spacing is zero or negative and the rectangle has a size of zero or more in that
  direction, the loop variable never rises above the end of the grid, the loop condition
  holds for ever, and the function never returns. The form handlers produce such input:
  an emptied spacing field is stored as \<open>0\<close> (lines 219 and 229). For positive
  spacings that the rounding does not absorb the function does return
  (\<open>generateSVG_returns\<close>).
\<close>

theorem nonpositive_spacing_never_returns:
  assumes "gridSpacingX s \<le> 0 \<and> 0 \<le> rectangleWidth s
         \<or> gridSpacingY s \<le> 0 \<and> 0 \<le> rectangleHeight s"
  shows "generateSVG s = None"
  using assms
proof
  assume "gridSpacingX s \<le> 0 \<and> 0 \<le> rectangleWidth s"
  then have "verticalLines s (alignedStartX s) [] = None"
    by (intro verticalLines_nonpositive) simp_all
  then show ?thesis by (simp add: generateSVG_def)
next
  assume "gridSpacingY s \<le> 0 \<and> 0 \<le> rectangleHeight s"
  then have "horizontalLines s (alignedStartY s) g = None" for g
    by (intro horizontalLines_nonpositive) simp_all
  then show ?thesis by (simp add: generateSVG_def split: option.splits)
qed

text \<open>The witness is the initial settings with a horizontal spacing of \<open>0\<close>.\<close>

theorem nonpositive_spacing_never_returns_witness:
  "(gridSpacingX (initialSettings\<lparr>gridSpacingX := 0\<rparr>) \<le> 0
      \<and> 0 \<le> rectangleWidth (initialSettings\<lparr>gridSpacingX := 0\<rparr>)
    \<or> gridSpacingY (initialSettings\<lparr>gridSpacingX := 0\<rparr>) \<le> 0
      \<and> 0 \<le> rectangleHeight (initialSettings\<lparr>gridSpacingX := 0\<rparr>))
 \<and> generateSVG (initialSettings\<lparr>gridSpacingX := 0\<rparr>) = None"
proof -
  have h: "gridSpacingX (initialSettings\<lparr>gridSpacingX := 0\<rparr>) \<le> 0
      \<and> 0 \<le> rectangleWidth (initialSettings\<lparr>gridSpacingX := 0\<rparr>)
    \<or> gridSpacingY (initialSettings\<lparr>gridSpacingX := 0\<rparr>) \<le> 0
      \<and> 0 \<le> rectangleHeight (initialSettings\<lparr>gridSpacingX := 0\<rparr>)"
    by (simp add: initialSettings_def)
  from h nonpositive_spacing_never_returns [OF h] show ?thesis by (rule conjI)
qed

text \<open>
  Claim C2: with \<open>gridType = dots\<close> the output has a filled circle at every grid
  intersection, 99 of them for the initial settings, and no line. The code never reads
  \<open>gridType\<close>: in dots mode the initial settings give the document of lines mode, whose
  grid is 19 \<^verbatim>\<open><line>\<close> elements and nothing else.
\<close>

theorem dots_mode_draws_lines:
  "generateSVG (initialSettings\<lparr>gridType := Dots\<rparr>) = generateSVG initialSettings
 \<and> (\<exists>coords. length coords = 19
      \<and> generateSVG (initialSettings\<lparr>gridType := Dots\<rparr>)
        = Some (svgDocument (initialSettings\<lparr>gridType := Dots\<rparr>)
            (concat (map (\<lambda>(x1, y1, x2, y2).
                 lineElement x1 y1 x2 y2 (numMul (lineWidth initialSettings) mmToPixel))
               coords))))"
proof -
  let ?d = "initialSettings\<lparr>gridType := Dots\<rparr>"
  let ?coords = "map (\<lambda>x. (x, rectY initialSettings, x,
                           numAdd (rectY initialSettings) (rectH initialSettings)))
         [3656958358785901 / 17592186044416,
          1080464969641289 / 4398046511104,
          4986761398344411 / 17592186044416,
          2825831459061833 / 8796093022208,
          6316564437902921 / 17592186044416,
          6817837849299 / 17179869184,
          7646367477461431 / 17592186044416,
          4155634498620343 / 8796093022208,
          8976170517019941 / 17592186044416,
          2410268009199799 / 4398046511104]
    @ map (\<lambda>y. (rectX initialSettings, y,
                 numAdd (rectX initialSettings) (rectW initialSettings), y))
         [7214181489604913 / 17592186044416,
          984885376173021 / 2199023255552,
          8543984529163423 / 17592186044416,
          4604443024471339 / 8796093022208,
          2468446892180483 / 4398046511104,
          5269344544250593 / 8796093022208,
          1400448826035055 / 2199023255552,
          5934246064029847 / 8796093022208,
          3133348411959737 / 4398046511104]"
  have eq: "generateSVG ?d = generateSVG initialSettings"
    by (rule generateSVG_read_fields) simp_all
  have doc: "svgDocument ?d g = svgDocument initialSettings g" for g
    by (simp add: svgDocument_def geometry_defs)
  have "length ?coords = 19" by simp
  moreover have "generateSVG ?d
      = Some (svgDocument ?d (concat (map (\<lambda>(x1, y1, x2, y2).
           lineElement x1 y1 x2 y2 (numMul (lineWidth initialSettings) mmToPixel)) ?coords)))"
    unfolding eq doc generateSVG_initial by simp
  ultimately show ?thesis using eq by blast
qed


text \<open>
  Claim C4: the rectangle element of the output stands at
  \<open>((pageWidthMm - rectangleWidth) / 2, (pageHeightMm - rectangleHeight) / 2)\<close>, scaled to
  device space by \<open>mmToPixel\<close>, with the rectangle's scaled size; nothing clamps the
  origin, which is negative when the rectangle is wider than the page. The arithmetic is
  that of Numbers. The element is the last one of every returned document.
\<close>

theorem rectangle_centered:
  assumes "generateSVG s = Some out"
  shows \<open>\<exists>pre. out = pre @
      [Text ''  <rect class="rectangle" x="'',
       Number (numMul (numDiv (numSub (pageWidthMm s) (rectangleWidth s)) 2) mmToPixel),
       Text ''" y="'',
       Number (numMul (numDiv (numSub (pageHeightMm s) (rectangleHeight s)) 2) mmToPixel),
       Text ''" width="'',
       Number (numMul (rectangleWidth s) mmToPixel),
       Text ''" height="'',
       Number (numMul (rectangleHeight s) mmToPixel),
       Text ''" />\<newline>'']
    @ [Text ''</svg>'']\<close>
proof -
  from generateSVG_Some [OF assms] obtain gridLines where
    "out = svgDocument s gridLines" by blast
  then show ?thesis
    unfolding svgDocument_def rectX_def rectY_def rectW_def rectH_def rectangleX_def
      rectangleY_def
    by (intro exI [of _ \<open>[Text ''<?xml version="1.0" encoding="UTF-8"?>\<newline>'',
       Text ''<svg width="'',
       Number (pageWidthMm s),
       Text ''mm" height="'',
       Number (pageHeightMm s),
       Text ''mm" viewBox="0 0 '',
       Number (svgWidth s),
       Text '' '',
       Number (svgHeight s),
       Text ''" xmlns="http://www.w3.org/2000/svg">\<newline>'',
       Text ''  <defs>\<newline>'',
       Text ''    <style>\<newline>'',
       Text ''      .page-boundary { fill: none; stroke: #000; stroke-width: 1; }\<newline>'',
       Text ''      .rectangle { fill: none; stroke: #000; stroke-width: '',
       Number (numMul (rectangleBorderWidth s) mmToPixel),
       Text ''; }\<newline>'',
       Text ''      .grid-line { stroke: #666; stroke-width: '',
       Number (numMul (lineWidth s) mmToPixel),
       Text ''; }\<newline>'',
       Text ''    </style>\<newline>'',
       Text ''  </defs>\<newline>'',
       Text ''  \<newline>'',
       Text ''  <!-- Page boundary -->\<newline>''] @ [Text ''  <rect class="page-boundary" x="0" y="0" width="'',
       Number (svgWidth s),
       Text ''" height="'',
       Number (svgHeight s),
       Text ''" />\<newline>''] @ [Text ''  \<newline>'',
       Text ''  <!-- Grid lines -->\<newline>'',
       Text ''  ''] @ gridLines @ [Text ''\<newline>'',
       Text ''  \<newline>'',
       Text ''  <!-- Rectangle -->\<newline>'']\<close>]) simp
qed

text \<open>
  The witness is a page of width 50 around the rectangle of width 100: the document is
  returned and its rectangle element starts at \<open>x = -94.488188975\<close>.
\<close>

theorem rectangle_centered_witness:
  \<open>generateSVG (initialSettings\<lparr>pageWidth := 50, gridSpacingX := 50, gridSpacingY := 40\<rparr>) \<noteq> None
 \<and> (\<exists>pre. the (generateSVG (initialSettings\<lparr>pageWidth := 50, gridSpacingX := 50, gridSpacingY := 40\<rparr>)) = pre @
      [Text ''  <rect class="rectangle" x="'',
       Number (- (6649015197792547 / 70368744177664)),
       Text ''" y="'',
       Number (7214181489604913 / 17592186044416),
       Text ''" width="'',
       Number (6649015197792547 / 17592186044416),
       Text ''" height="'',
       Number (2659606079117019 / 8796093022208),
       Text ''" />\<newline>'']
    @ [Text ''</svg>''])\<close>
proof -
  let ?s = "(initialSettings\<lparr>pageWidth := 50, gridSpacingX := 50, gridSpacingY := 40\<rparr>)"
  have r: "generateSVG ?s \<noteq> None" by (rule narrow_page_returns)
  then have "generateSVG ?s = Some (the (generateSVG ?s))" by simp
  from rectangle_centered [OF this] have \<open>\<exists>pre. the (generateSVG ?s) = pre @
      [Text ''  <rect class="rectangle" x="'',
       Number (numMul (numDiv (numSub (pageWidthMm ?s) (rectangleWidth ?s)) 2) mmToPixel),
       Text ''" y="'',
       Number (numMul (numDiv (numSub (pageHeightMm ?s) (rectangleHeight ?s)) 2) mmToPixel),
       Text ''" width="'',
       Number (numMul (rectangleWidth ?s) mmToPixel),
       Text ''" height="'',
       Number (numMul (rectangleHeight ?s) mmToPixel),
       Text ''" />\<newline>'']
    @ [Text ''</svg>'']\<close> .
  moreover have
    "numMul (numDiv (numSub (pageWidthMm ?s) (rectangleWidth ?s)) 2) mmToPixel
       = - (6649015197792547 / 70368744177664)"
    "numMul (numDiv (numSub (pageHeightMm ?s) (rectangleHeight ?s)) 2) mmToPixel
       = 7214181489604913 / 17592186044416"
    "numMul (rectangleWidth ?s) mmToPixel = 6649015197792547 / 17592186044416"
    "numMul (rectangleHeight ?s) mmToPixel = 2659606079117019 / 8796093022208"
    using narrow_page_values(1-4) by (simp_all add: rectX_def rectY_def rectW_def rectH_def
        rectangleX_def rectangleY_def del: GridSettings.simps)
  ultimately have \<open>\<exists>pre. the (generateSVG ?s) = pre @
      [Text ''  <rect class="rectangle" x="'',
       Number (- (6649015197792547 / 70368744177664)),
       Text ''" y="'',
       Number (7214181489604913 / 17592186044416),
       Text ''" width="'',
       Number (6649015197792547 / 17592186044416),
       Text ''" height="'',
       Number (2659606079117019 / 8796093022208),
       Text ''" />\<newline>'']
    @ [Text ''</svg>'']\<close> by (simp only:)
  with r show ?thesis by (rule conjI)
qed



text \<open>
  Claim C6: a returned document holds, in this order, the page-boundary rectangle over
  the whole canvas (class \<open>page-boundary\<close>, \<open>fill: none\<close>), the grid primitives, and last
  the centred rectangle (class \<open>rectangle\<close>, \<open>fill: none\<close>, stroked at
  \<open>rectangleBorderWidth\<close> in device space).
\<close>

theorem output_order:
  assumes "generateSVG s = Some out"
  shows \<open>\<exists>xs ys. out =
      [Text ''<?xml version="1.0" encoding="UTF-8"?>\<newline>'',
       Text ''<svg width="'',
       Number (pageWidthMm s),
       Text ''mm" height="'',
       Number (pageHeightMm s),
       Text ''mm" viewBox="0 0 '',
       Number (svgWidth s),
       Text '' '',
       Number (svgHeight s),
       Text ''" xmlns="http://www.w3.org/2000/svg">\<newline>'',
       Text ''  <defs>\<newline>'',
       Text ''    <style>\<newline>'',
       Text ''      .page-boundary { fill: none; stroke: #000; stroke-width: 1; }\<newline>'',
       Text ''      .rectangle { fill: none; stroke: #000; stroke-width: '',
       Number (numMul (rectangleBorderWidth s) mmToPixel),
       Text ''; }\<newline>'',
       Text ''      .grid-line { stroke: #666; stroke-width: '',
       Number (numMul (lineWidth s) mmToPixel),
       Text ''; }\<newline>'',
       Text ''    </style>\<newline>'',
       Text ''  </defs>\<newline>'',
       Text ''  \<newline>'',
       Text ''  <!-- Page boundary -->\<newline>'']
    @ [Text ''  <rect class="page-boundary" x="0" y="0" width="'',
       Number (svgWidth s),
       Text ''" height="'',
       Number (svgHeight s),
       Text ''" />\<newline>'']
    @ [Text ''  \<newline>'',
       Text ''  <!-- Grid lines -->\<newline>'',
       Text ''  '']
    @ concat (map (\<lambda>x. lineElement x (rectY s) x (numAdd (rectY s) (rectH s))
                      (numMul (lineWidth s) mmToPixel)) xs)
    @ concat (map (\<lambda>y. lineElement (rectX s) y (numAdd (rectX s) (rectW s)) y
                      (numMul (lineWidth s) mmToPixel)) ys)
    @ [Text ''\<newline>'',
       Text ''  \<newline>'',
       Text ''  <!-- Rectangle -->\<newline>'']
    @ [Text ''  <rect class="rectangle" x="'',
       Number (rectX s),
       Text ''" y="'',
       Number (rectY s),
       Text ''" width="'',
       Number (rectW s),
       Text ''" height="'',
       Number (rectH s),
       Text ''" />\<newline>'']
    @ [Text ''</svg>'']\<close>
proof -
  from generateSVG_lines [OF assms] obtain xs ys where
    "out = svgDocument s (concat (map (\<lambda>x. lineElement x (rectY s) x (numAdd (rectY s) (rectH s))
                      (numMul (lineWidth s) mmToPixel)) xs) @ concat (map (\<lambda>y. lineElement (rectX s) y (numAdd (rectX s) (rectW s)) y
                      (numMul (lineWidth s) mmToPixel)) ys))" by blast
  then show ?thesis unfolding svgDocument_def by (intro exI [of _ xs] exI [of _ ys]) simp
qed

theorem output_order_witness:
  \<open>generateSVG initialSettings \<noteq> None
 \<and> (\<exists>xs ys. the (generateSVG initialSettings) =
      [Text ''<?xml version="1.0" encoding="UTF-8"?>\<newline>'',
       Text ''<svg width="'',
       Number (pageWidthMm initialSettings),
       Text ''mm" height="'',
       Number (pageHeightMm initialSettings),
       Text ''mm" viewBox="0 0 '',
       Number (svgWidth initialSettings),
       Text '' '',
       Number (svgHeight initialSettings),
       Text ''" xmlns="http://www.w3.org/2000/svg">\<newline>'',
       Text ''  <defs>\<newline>'',
       Text ''    <style>\<newline>'',
       Text ''      .page-boundary { fill: none; stroke: #000; stroke-width: 1; }\<newline>'',
       Text ''      .rectangle { fill: none; stroke: #000; stroke-width: '',
       Number (numMul (rectangleBorderWidth initialSettings) mmToPixel),
       Text ''; }\<newline>'',
       Text ''      .grid-line { stroke: #666; stroke-width: '',
       Number (numMul (lineWidth initialSettings) mmToPixel),
       Text ''; }\<newline>'',
       Text ''    </style>\<newline>'',
       Text ''  </defs>\<newline>'',
       Text ''  \<newline>'',
       Text ''  <!-- Page boundary -->\<newline>'']
    @ [Text ''  <rect class="page-boundary" x="0" y="0" width="'',
       Number (svgWidth initialSettings),
       Text ''" height="'',
       Number (svgHeight initialSettings),
       Text ''" />\<newline>'']
    @ [Text ''  \<newline>'',
       Text ''  <!-- Grid lines -->\<newline>'',
       Text ''  '']
    @ concat (map (\<lambda>x. lineElement x (rectY initialSettings) x (numAdd (rectY initialSettings) (rectH initialSettings))
                      (numMul (lineWidth initialSettings) mmToPixel)) xs)
    @ concat (map (\<lambda>y. lineElement (rectX initialSettings) y (numAdd (rectX initialSettings) (rectW initialSettings)) y
                      (numMul (lineWidth initialSettings) mmToPixel)) ys)
    @ [Text ''\<newline>'',
       Text ''  \<newline>'',
       Text ''  <!-- Rectangle -->\<newline>'']
    @ [Text ''  <rect class="rectangle" x="'',
       Number (rectX initialSettings),
       Text ''" y="'',
       Number (rectY initialSettings),
       Text ''" width="'',
       Number (rectW initialSettings),
       Text ''" height="'',
       Number (rectH initialSettings),
       Text ''" />\<newline>'']
    @ [Text ''</svg>''])\<close>
proof -
  have "generateSVG initialSettings \<noteq> None" by (simp add: generateSVG_initial)
  then show ?thesis using output_order [OF initial_returns] by (rule conjI)
qed

text \<open>
  Claim C7: for the initial settings (A4 in millimetres, rectangle 100 by 80, spacing 10
  by 10, line width 0.2, border 0.4, lines) the rectangle origin is \<open>(55, 108.5)\<close>
  millimetres, the page in device space is \<open>210 * mmToPixel\<close> by \<open>297 * mmToPixel\<close>,
  about \<open>793.7\<close> by \<open>1122.5\<close>, and the grid has 11 vertical and 9 horizontal lines.
  The origin and the page size are as claimed. The grid has 9 horizontal lines but only
  10 vertical ones: the loop adds the rounded spacing to \<open>x\<close> ten times, and the sum,
  \<open>585.8267716450001\<close>, is above \<open>gridEndX = 585.826771645\<close>, so the line on the right
  edge is not drawn.
\<close>

theorem initial_settings_grid:
  "rectangleX initialSettings = 55
 \<and> rectangleY initialSettings = 217 / 2
 \<and> svgWidth initialSettings = numMul 210 mmToPixel
 \<and> svgHeight initialSettings = numMul 297 mmToPixel
 \<and> \<bar>svgWidth initialSettings - 7937 / 10\<bar> < 1 / 10
 \<and> \<bar>svgHeight initialSettings - 11225 / 10\<bar> < 1 / 10
 \<and> generateSVG initialSettings =
     Some (svgDocument initialSettings
       (concat (map (\<lambda>x. lineElement x (rectY initialSettings) x (numAdd (rectY initialSettings) (rectH initialSettings))
                      (numMul (lineWidth initialSettings) mmToPixel))
         [3656958358785901 / 17592186044416,
          1080464969641289 / 4398046511104,
          4986761398344411 / 17592186044416,
          2825831459061833 / 8796093022208,
          6316564437902921 / 17592186044416,
          6817837849299 / 17179869184,
          7646367477461431 / 17592186044416,
          4155634498620343 / 8796093022208,
          8976170517019941 / 17592186044416,
          2410268009199799 / 4398046511104])
      @ concat (map (\<lambda>y. lineElement (rectX initialSettings) y (numAdd (rectX initialSettings) (rectW initialSettings)) y
                      (numMul (lineWidth initialSettings) mmToPixel))
         [7214181489604913 / 17592186044416,
          984885376173021 / 2199023255552,
          8543984529163423 / 17592186044416,
          4604443024471339 / 8796093022208,
          2468446892180483 / 4398046511104,
          5269344544250593 / 8796093022208,
          1400448826035055 / 2199023255552,
          5934246064029847 / 8796093022208,
          3133348411959737 / 4398046511104])))
 \<and> gridEndX initialSettings
       < numAdd (2410268009199799 / 4398046511104) (spacingX initialSettings)"
proof -
  have "svgWidth initialSettings = numMul 210 mmToPixel"
    "svgHeight initialSettings = numMul 297 mmToPixel"
    by (simp_all add: svgWidth_def svgHeight_def pageWidthMm_def pageHeightMm_def
        initialSettings_def)
  moreover have "\<bar>svgWidth initialSettings - 7937 / 10\<bar> < 1 / 10"
    "\<bar>svgHeight initialSettings - 11225 / 10\<bar> < 1 / 10"
    by (simp_all add: initial_values)
  ultimately show ?thesis
    using initial_values(3,4) generateSVG_initial eleventh_candidate by (intro conjI)
qed

text \<open>
  Claim C9: the style block defines the three stroke classes, each stroke width being the
  matching settings value times \<open>mmToPixel\<close>. That fails for the page boundary: its
  declaration is the fixed text \<open>stroke-width: 1\<close>, and no settings value of the initial
  settings times \<open>mmToPixel\<close> is \<open>1\<close>.
\<close>

theorem page_boundary_width_counterexample:
  \<open>the (generateSVG initialSettings) ! 12
     = Text ''      .page-boundary { fill: none; stroke: #000; stroke-width: 1; }\<newline>''
 \<and> numMul (pageWidth initialSettings) mmToPixel \<noteq> 1
 \<and> numMul (pageHeight initialSettings) mmToPixel \<noteq> 1
 \<and> numMul (gridSpacingX initialSettings) mmToPixel \<noteq> 1
 \<and> numMul (gridSpacingY initialSettings) mmToPixel \<noteq> 1
 \<and> numMul (lineWidth initialSettings) mmToPixel \<noteq> 1
 \<and> numMul (dotSize initialSettings) mmToPixel \<noteq> 1
 \<and> numMul (rectangleWidth initialSettings) mmToPixel \<noteq> 1
 \<and> numMul (rectangleHeight initialSettings) mmToPixel \<noteq> 1
 \<and> numMul (rectangleBorderWidth initialSettings) mmToPixel \<noteq> 1\<close>
proof -
  have \<open>the (generateSVG initialSettings) ! 12
     = Text ''      .page-boundary { fill: none; stroke: #000; stroke-width: 1; }\<newline>''\<close>
    by (simp add: generateSVG_initial svgDocument_def)
  moreover have "numMul (pageWidth initialSettings) mmToPixel \<noteq> 1"
    "numMul (pageHeight initialSettings) mmToPixel \<noteq> 1"
    "numMul (gridSpacingX initialSettings) mmToPixel \<noteq> 1"
    "numMul (gridSpacingY initialSettings) mmToPixel \<noteq> 1"
    "numMul (lineWidth initialSettings) mmToPixel \<noteq> 1"
    "numMul (dotSize initialSettings) mmToPixel \<noteq> 1"
    "numMul (rectangleWidth initialSettings) mmToPixel \<noteq> 1"
    "numMul (rectangleHeight initialSettings) mmToPixel \<noteq> 1"
    "numMul (rectangleBorderWidth initialSettings) mmToPixel \<noteq> 1"
    by (simp_all add: initialSettings_def mmToPixel_value number_eval)
  ultimately show ?thesis by (intro conjI)
qed

text \<open>
  Claim C9 as amended: a returned document has a style block with the three classes; the
  stroke width of \<open>rectangle\<close> is \<open>rectangleBorderWidth\<close> times \<open>mmToPixel\<close>, that of
  \<open>grid-line\<close> is \<open>lineWidth\<close> times \<open>mmToPixel\<close>, and that of \<open>page-boundary\<close> is
  the constant \<open>1\<close> of device space, whatever the settings.
\<close>

theorem style_block:
  assumes "generateSVG s = Some out"
  shows \<open>\<exists>pre post. out = pre @
      [Text ''    <style>\<newline>'',
       Text ''      .page-boundary { fill: none; stroke: #000; stroke-width: 1; }\<newline>'',
       Text ''      .rectangle { fill: none; stroke: #000; stroke-width: '',
       Number (numMul (rectangleBorderWidth s) mmToPixel),
       Text ''; }\<newline>'',
       Text ''      .grid-line { stroke: #666; stroke-width: '',
       Number (numMul (lineWidth s) mmToPixel),
       Text ''; }\<newline>'',
       Text ''    </style>\<newline>'']
    @ post\<close>
proof -
  from generateSVG_Some [OF assms] obtain gridLines where
    "out = svgDocument s gridLines" by blast
  then show ?thesis
    unfolding svgDocument_def
    by (intro exI [of _ \<open>[Text ''<?xml version="1.0" encoding="UTF-8"?>\<newline>'',
           Text ''<svg width="'',
           Number (pageWidthMm s),
           Text ''mm" height="'',
           Number (pageHeightMm s),
           Text ''mm" viewBox="0 0 '',
           Number (svgWidth s),
           Text '' '',
           Number (svgHeight s),
           Text ''" xmlns="http://www.w3.org/2000/svg">\<newline>'',
           Text ''  <defs>\<newline>'']\<close>]
          exI [of _ \<open>[Text ''  </defs>\<newline>'',
       Text ''  \<newline>'',
       Text ''  <!-- Page boundary -->\<newline>''] @ [Text ''  <rect class="page-boundary" x="0" y="0" width="'',
       Number (svgWidth s),
       Text ''" height="'',
       Number (svgHeight s),
       Text ''" />\<newline>''] @ [Text ''  \<newline>'',
       Text ''  <!-- Grid lines -->\<newline>'',
       Text ''  ''] @ gridLines @ [Text ''\<newline>'',
       Text ''  \<newline>'',
       Text ''  <!-- Rectangle -->\<newline>''] @ [Text ''  <rect class="rectangle" x="'',
       Number (rectX s),
       Text ''" y="'',
       Number (rectY s),
       Text ''" width="'',
       Number (rectW s),
       Text ''" height="'',
       Number (rectH s),
       Text ''" />\<newline>''] @ [Text ''</svg>'']\<close>]) simp
qed

theorem style_block_witness:
  \<open>generateSVG initialSettings \<noteq> None
 \<and> (\<exists>pre post. the (generateSVG initialSettings) = pre @
      [Text ''    <style>\<newline>'',
       Text ''      .page-boundary { fill: none; stroke: #000; stroke-width: 1; }\<newline>'',
       Text ''      .rectangle { fill: none; stroke: #000; stroke-width: '',
       Number (numMul (rectangleBorderWidth initialSettings) mmToPixel),
       Text ''; }\<newline>'',
       Text ''      .grid-line { stroke: #666; stroke-width: '',
       Number (numMul (lineWidth initialSettings) mmToPixel),
       Text ''; }\<newline>'',
       Text ''    </style>\<newline>'']
    @ post)\<close>
proof -
  have "generateSVG initialSettings \<noteq> None" by (simp add: generateSVG_initial)
  then show ?thesis using style_block [OF initial_returns] by (rule conjI)
qed

text \<open>
  Claim C10: settings that differ only in \<open>gridType\<close> and \<open>dotSize\<close> give the same
  result: the output never depends on either field.
\<close>

theorem gridType_dotSize_ignored:
  "generateSVG (s\<lparr>gridType := t, dotSize := d\<rparr>) = generateSVG s"
  by (rule generateSVG_read_fields) simp_all

end
